theory Spec2Isabelle
  imports Main "HOL-Library.Sublist"
begin

text \<open>
  A model of \<^verbatim>\<open>src/utils/loadConfig.ts\<close> of build-scripts: the merge of a mode's overrides
  into the user configuration, the resolution of the configuration file, the dispatch of
  \<^verbatim>\<open>loadConfig\<close> on the suffix of the path, and the run of a compiled module from a temporary
  file.
\<close>

section \<open>Data model\<close>

text \<open>
  The configuration payload is opaque to the loader: it is merged and returned, never
  interpreted. Values are modelled as a small JavaScript value type; numbers are integers,
  which is all the examples need.
\<close>

datatype json = JUndefined | JNull | JBool bool | JNum int | JStr string
  | JArr "json list" | JObj "(string \<times> json) list"

text \<open>
  A plugin entry is a bare identifier or a pair of an identifier and an options object
  (\<^verbatim>\<open>string | [string, Json]\<close>).
\<close>

datatype plugin = PluginName string | PluginInfo string json

text \<open>
  An entry of \<^verbatim>\<open>modeConfig\<close> is a partial configuration: \<^verbatim>\<open>plugins\<close> may be missing,
  and it may carry a \<^verbatim>\<open>modeConfig\<close> of its own. All further top-level fields are kept in
  a map from field name to value.
\<close>

datatype override = Override
  (o_plugins: "plugin list option")
  (o_modeConfig: "(string \<rightharpoonup> override) option")
  (o_others: "string \<rightharpoonup> json")

record userConfig =
  plugins :: "plugin list"
  modeConfig :: "(string \<rightharpoonup> override) option"
  others :: "string \<rightharpoonup> json"

section \<open>mergeModeConfig\<close>

text \<open>\<^verbatim>\<open>Array.isArray(pluginInfo) ? pluginInfo[0] : pluginInfo\<close>\<close>

fun pluginKey :: "plugin \<Rightarrow> string" where
  "pluginKey (PluginName n) = n"
| "pluginKey (PluginInfo n opts) = n"

text \<open>\<^verbatim>\<open>Array.prototype.indexOf\<close>: the first index holding the element, or \<open>-1\<close>.\<close>

fun indexOf :: "'a list \<Rightarrow> 'a \<Rightarrow> int" where
  "indexOf [] x = - 1"
| "indexOf (y # ys) x =
     (if y = x then 0 else (let i = indexOf ys x in if i > - 1 then i + 1 else - 1))"

text \<open>
  One round of the \<^verbatim>\<open>plugins.forEach\<close> callback. \<open>pluginKeys\<close> is computed once, from
  the base list, before the loop; the callback updates only \<open>userPlugins\<close>. An index found
  in \<open>pluginKeys\<close> is below the length of \<open>userPlugins\<close>, which starts as the base list and
  only grows, so the assignment always replaces an entry that is there.
\<close>

definition mergePlugin :: "string list \<Rightarrow> plugin \<Rightarrow> plugin list \<Rightarrow> plugin list" where
  "mergePlugin pluginKeys pluginInfo userPlugins =
     (let pluginName = pluginKey pluginInfo;
          pluginIndex = indexOf pluginKeys pluginName
      in if pluginIndex > - 1 then userPlugins[nat pluginIndex := pluginInfo]
         else userPlugins @ [pluginInfo])"

text \<open>
  The guard is \<^verbatim>\<open>userConfig.modeConfig && mode && userConfig.modeConfig[mode]\<close>; an empty
  string is falsy. The result of the merge is the spread
  \<^verbatim>\<open>{ ...userConfig, ...basicConfig, plugins: userPlugins }\<close>, where \<open>basicConfig\<close> is the
  override without its \<^verbatim>\<open>plugins\<close>: a field of the override replaces the field of the same
  name, \<^verbatim>\<open>modeConfig\<close> included.
\<close>

definition mergeModeConfig :: "string \<Rightarrow> userConfig \<Rightarrow> userConfig" where
  "mergeModeConfig mode userConfig =
     (case modeConfig userConfig of
        None \<Rightarrow> userConfig
      | Some mc \<Rightarrow>
          if mode = [] then userConfig
          else (case mc mode of
              None \<Rightarrow> userConfig
            | Some ov \<Rightarrow>
                let userPlugins = plugins userConfig;
                    merged = (case o_plugins ov of
                        None \<Rightarrow> userPlugins
                      | Some ps \<Rightarrow>
                          fold (mergePlugin (map pluginKey userPlugins)) ps userPlugins)
                in \<lparr> plugins = merged,
                     modeConfig = (case o_modeConfig ov of
                         None \<Rightarrow> modeConfig userConfig
                       | Some m \<Rightarrow> Some m),
                     others = others userConfig ++ o_others ov \<rparr>))"

text \<open>
  The reconciliation as the specification words it, to be compared with the code: each
  override entry, in listed order, replaces the entry at the position where its identifier
  first occurs in the base list, and is appended when the base list has no such identifier.
\<close>

fun reconcile :: "plugin list \<Rightarrow> plugin list \<Rightarrow> plugin list \<Rightarrow> plugin list" where
  "reconcile base working [] = working"
| "reconcile base working (p # ps) =
     reconcile base
       (if pluginKey p \<in> pluginKey ` set base
        then working[length (takeWhile (\<lambda>q. pluginKey q \<noteq> pluginKey p) base) := p]
        else working @ [p])
       ps"

text \<open>The plugins list of the override selected by a mode; no list counts as an empty one.\<close>

definition overridePlugins :: "override \<Rightarrow> plugin list" where
  "overridePlugins ov = (case o_plugins ov of None \<Rightarrow> [] | Some ps \<Rightarrow> ps)"

section \<open>Strings\<close>

text \<open>\<^verbatim>\<open>String.prototype.endsWith\<close>\<close>

definition endsWith :: "string \<Rightarrow> string \<Rightarrow> bool" where
  "endsWith s t = (length t \<le> length s \<and> drop (length s - length t) s = t)"

text \<open>\<^verbatim>\<open>String.prototype.indexOf\<close>, as the position of the first occurrence or nothing.\<close>

fun firstOccurrence :: "string \<Rightarrow> string \<Rightarrow> nat option" where
  "firstOccurrence [] pat = (if pat = [] then Some 0 else None)"
| "firstOccurrence (c # cs) pat =
     (if prefix pat (c # cs) then Some 0 else map_option Suc (firstOccurrence cs pat))"

text \<open>
  The replacement text of \<^verbatim>\<open>String.prototype.replace\<close> for a string pattern: \<^verbatim>\<open>$$\<close> is a
  dollar sign, \<^verbatim>\<open>$&\<close> the matched text, \<^verbatim>\<open>$`\<close> the text before the match, \<^verbatim>\<open>$'\<close> the text
  after it; a string pattern has no capture groups, so every other \<^verbatim>\<open>$\<close> stands for itself.
\<close>

fun getSubstitution :: "string \<Rightarrow> string \<Rightarrow> string \<Rightarrow> string \<Rightarrow> string" where
  "getSubstitution matched preceding following [] = []"
| "getSubstitution matched preceding following [c] = [c]"
| "getSubstitution matched preceding following (c # d # rest) =
     (if c = CHR ''$'' \<and> d = CHR ''$'' then CHR ''$'' # getSubstitution matched preceding following rest
      else if c = CHR ''$'' \<and> d = CHR ''&'' then matched @ getSubstitution matched preceding following rest
      else if c = CHR ''$'' \<and> d = CHR 0x60 then preceding @ getSubstitution matched preceding following rest
      else if c = CHR ''$'' \<and> d = CHR 0x27 then following @ getSubstitution matched preceding following rest
      else c # getSubstitution matched preceding following (d # rest))"

text \<open>
  \<^verbatim>\<open>s.replace(pat, replacement)\<close> with a string pattern: only the first occurrence of the
  pattern is replaced.
\<close>

definition replace :: "string \<Rightarrow> string \<Rightarrow> string \<Rightarrow> string" where
  "replace s pat replacement =
     (case firstOccurrence s pat of
        None \<Rightarrow> s
      | Some i \<Rightarrow>
          let preceding = take i s; following = drop (i + length pat) s
          in preceding @ getSubstitution pat preceding following replacement @ following)"

text \<open>The number of positions of a text at which a pattern occurs.\<close>

fun occurrences :: "string \<Rightarrow> string \<Rightarrow> nat" where
  "occurrences [] pat = (if pat = [] then 1 else 0)"
| "occurrences (c # cs) pat = (if prefix pat (c # cs) then 1 else 0) + occurrences cs pat"

section \<open>Thrown values, the file system and the collaborators\<close>

text \<open>
  The \<^verbatim>\<open>stack\<close> of an error: the engine keeps the frames of a new error and formats the
  text on the first read of \<^verbatim>\<open>err.stack\<close>, from the name and the message the error has at
  that moment and the frames; once read or assigned, the property is a stored string. It can
  also be missing.
\<close>

datatype stackProp = NotFormatted string | Formatted string | NoStack

record js_error =
  name :: string
  message :: string
  stack :: stackProp

text \<open>\<^verbatim>\<open>Error.prototype.toString\<close>, the first line of a formatted stack.\<close>

definition errorToString :: "js_error \<Rightarrow> string" where
  "errorToString er =
     (if name er = [] then message er
      else if message er = [] then name er
      else name er @ '': '' @ message er)"

text \<open>The value of \<^verbatim>\<open>err.stack\<close> when it is read; nothing when the property is missing.\<close>

definition readStack :: "js_error \<Rightarrow> string option" where
  "readStack er =
     (case stack er of
        NotFormatted frames \<Rightarrow> Some (errorToString er @ frames)
      | Formatted st \<Rightarrow> Some st
      | NoStack \<Rightarrow> None)"

text \<open>
  A thrown value is an \<^verbatim>\<open>Error\<close> instance or any other value
  (\<^verbatim>\<open>err instanceof Error\<close> tells them apart).
\<close>

datatype thrown = ErrorObj js_error | NonError json

text \<open>
  The state the loader works on: the files on disk, by path, and the paths that have an
  entry in \<^verbatim>\<open>require.cache\<close>.
\<close>

record world =
  files :: "string \<rightharpoonup> string"
  cache :: "string set"

text \<open>
  The collaborators of the loader are parameters: the working directory of the process,
  the pattern search \<^verbatim>\<open>fg\<close>, \<^verbatim>\<open>require.resolve\<close>, the two module loaders and the compiler
  \<^verbatim>\<open>buildConfig\<close>. A module that is loaded runs arbitrary code, so a loader may change the
  whole state and may throw any value. The platform's errors are parameters too:
  \<open>fs_refuses\<close> gives the error with which the file system refuses an operation on a path
  (no permission, a missing directory, a busy file, a directory in the place of a file),
  \<open>notFound\<close> the error for a file that is not there, \<open>undefinedRead\<close> the \<^verbatim>\<open>TypeError\<close> for
  reading a property of \<^verbatim>\<open>undefined\<close>, and \<open>JSON5_other\<close> what \<^verbatim>\<open>JSON5.parse\<close> does with a
  text outside the grammar modelled below.
\<close>

record env =
  cwd :: string
  fg :: "string list \<Rightarrow> string \<Rightarrow> thrown + string list"
  fs_refuses :: "string \<Rightarrow> string \<Rightarrow> world \<Rightarrow> thrown option"
  notFound :: "string \<Rightarrow> string \<Rightarrow> thrown"
  undefinedRead :: "string \<Rightarrow> thrown"
  require_resolve :: "string \<Rightarrow> world \<Rightarrow> thrown + string"
  require :: "string \<Rightarrow> world \<Rightarrow> (thrown + json) \<times> world"
  dynamicImport :: "string \<Rightarrow> bool \<Rightarrow> world \<Rightarrow> (thrown + json) \<times> world"
  buildConfig :: "string \<Rightarrow> string \<Rightarrow> world \<Rightarrow> (thrown + string) \<times> world"
  JSON5_other :: "string \<Rightarrow> thrown + json"

text \<open>
  The three calls of \<^verbatim>\<open>fs\<close>. Each can be refused by the file system, and then changes
  nothing; reading and deleting also fail on a file that is not there.
\<close>

definition readFileSync :: "env \<Rightarrow> string \<Rightarrow> world \<Rightarrow> thrown + string" where
  "readFileSync e p w =
     (case fs_refuses e ''readFileSync'' p w of
        Some err \<Rightarrow> Inl err
      | None \<Rightarrow>
          (case files w p of
             None \<Rightarrow> Inl (notFound e ''readFileSync'' p)
           | Some content \<Rightarrow> Inr content))"

definition writeFileSync :: "env \<Rightarrow> string \<Rightarrow> string \<Rightarrow> world \<Rightarrow> thrown + world" where
  "writeFileSync e p content w =
     (case fs_refuses e ''writeFileSync'' p w of
        Some err \<Rightarrow> Inl err
      | None \<Rightarrow> Inr (w\<lparr> files := (files w)(p \<mapsto> content) \<rparr>))"

definition unlinkSync :: "env \<Rightarrow> string \<Rightarrow> world \<Rightarrow> thrown + world" where
  "unlinkSync e p w =
     (case fs_refuses e ''unlinkSync'' p w of
        Some err \<Rightarrow> Inl err
      | None \<Rightarrow>
          (case files w p of
             None \<Rightarrow> Inl (notFound e ''unlinkSync'' p)
           | Some content \<Rightarrow> Inr (w\<lparr> files := (files w)(p := None) \<rparr>)))"

text \<open>Sequencing of two steps: a thrown value ends the run, with the state reached so far.\<close>

definition andThen ::
  "(thrown + 'a) \<times> world \<Rightarrow> ('a \<Rightarrow> world \<Rightarrow> (thrown + 'b) \<times> world)
     \<Rightarrow> (thrown + 'b) \<times> world" where
  "andThen r k = (case r of (Inl err, w) \<Rightarrow> (Inl err, w) | (Inr v, w) \<Rightarrow> k v w)"

text \<open>Property access \<^verbatim>\<open>v.k\<close>, optional chaining \<^verbatim>\<open>v?.k\<close> and \<^verbatim>\<open>v ?? d\<close>.\<close>

fun getProp :: "json \<Rightarrow> string \<Rightarrow> json" where
  "getProp (JObj kvs) k = (case map_of kvs k of None \<Rightarrow> JUndefined | Some v \<Rightarrow> v)"
| "getProp v k = JUndefined"

definition isNullish :: "json \<Rightarrow> bool" where
  "isNullish v = (v = JUndefined \<or> v = JNull)"

definition optionalProp :: "json \<Rightarrow> string \<Rightarrow> json" where
  "optionalProp v k = (if isNullish v then JUndefined else getProp v k)"

definition nullishCoalesce :: "json \<Rightarrow> json \<Rightarrow> json" where
  "nullishCoalesce v d = (if isNullish v then d else v)"

section \<open>executeTypescriptModule\<close>

definition tempFileOf :: "string \<Rightarrow> bool \<Rightarrow> string" where
  "tempFileOf filePath isEsm = filePath @ ''.'' @ (if isEsm then ''m'' else ''c'') @ ''js''"

text \<open>
  The body of the \<^verbatim>\<open>catch\<close> block after the deletion: the value that is thrown in the
  end. The message is rewritten first and the stack is read after it, so a stack that was
  not formatted before is formatted from the rewritten message; a missing stack makes
  \<^verbatim>\<open>err.stack.replace\<close> throw.
\<close>

definition hijack :: "env \<Rightarrow> string \<Rightarrow> string \<Rightarrow> thrown \<Rightarrow> thrown" where
  "hijack e tempFile filePath err =
     (case err of
        NonError v \<Rightarrow> NonError v
      | ErrorObj er \<Rightarrow>
          let er1 = er\<lparr> message := replace (message er) tempFile filePath \<rparr> in
          (case readStack er1 of
             None \<Rightarrow> undefinedRead e ''replace''
           | Some st \<Rightarrow> ErrorObj (er1\<lparr> stack := Formatted (replace st tempFile filePath) \<rparr>)))"

text \<open>
  Writing the artifact and \<^verbatim>\<open>require.resolve\<close> come before the \<^verbatim>\<open>try\<close>: what they throw
  leaves the function at once. The \<^verbatim>\<open>catch\<close> block deletes the artifact first, so an error
  of the deletion takes the place of the value that was caught.
\<close>

definition executeTypescriptModule ::
  "env \<Rightarrow> string \<Rightarrow> string \<Rightarrow> bool \<Rightarrow> world \<Rightarrow> (thrown + json) \<times> world" where
  "executeTypescriptModule e code filePath isEsm w =
     (let tempFile = tempFileOf filePath isEsm in
      case writeFileSync e tempFile code w of
        Inl err \<Rightarrow> (Inl err, w)
      | Inr w1 \<Rightarrow>
          (case require_resolve e tempFile w1 of
             Inl err \<Rightarrow> (Inl err, w1)
           | Inr resolved \<Rightarrow>
               let w2 = w1\<lparr> cache := cache w1 - {resolved} \<rparr> in
               (case (if isEsm then dynamicImport e tempFile True w2
                      else require e tempFile w2) of
                  (Inl err, w3) \<Rightarrow>
                    (case unlinkSync e tempFile w3 of
                       Inl err' \<Rightarrow> (Inl err', w3)
                     | Inr w4 \<Rightarrow> (Inl (hijack e tempFile filePath err), w4))
                | (Inr raw, w3) \<Rightarrow>
                    let userConfig = nullishCoalesce (optionalProp raw ''default'') raw in
                    (case unlinkSync e tempFile w3 of
                       Inl err' \<Rightarrow> (Inl err', w3)
                     | Inr w4 \<Rightarrow> (Inr userConfig, w4)))))"

section \<open>JSON5.parse\<close>

text \<open>
  Modelled from the spec: \<^verbatim>\<open>JSON5.parse\<close>, the parser of the \<^verbatim>\<open>json5\<close> package, which is not
  under \<^verbatim>\<open>src/\<close>. The specification calls it a JSON-superset parser that permits comments,
  trailing commas and unquoted keys. The model is a scanner that reads the text character by
  character and a stack machine that reads the tokens one by one. It covers objects, arrays,
  double-quoted strings with the one-letter escapes of JSON, decimal integers, \<^verbatim>\<open>null\<close>,
  \<^verbatim>\<open>true\<close>, \<^verbatim>\<open>false\<close>, blanks, both forms of comment, a comma after the last element or
  member, and keys written as identifiers. For every other text the model gives no value,
  and what the parser does with it (a syntax error, or a value of an extension of JSON5 the
  specification does not list, such as fractions, single quotes or \<^verbatim>\<open>\u\<close> escapes) is left to
  the parameter \<open>JSON5_other\<close>.
\<close>

datatype token = TLBrace | TRBrace | TLBracket | TRBracket | TColon | TComma
  | TString string | TIdent string | TNumber int

text \<open>
  The states of the scanner: between tokens, inside an identifier, after a minus sign,
  inside a number (its sign and digits), inside a string, after a backslash in a string,
  after a slash, inside a line comment, inside a block comment, and after a star in a block
  comment.
\<close>

datatype lexState = LStart | LIdent string | LMinus | LNumber bool string
  | LString string | LEscape string | LSlash | LLine | LBlock | LBlockStar

definition isDigit :: "char \<Rightarrow> bool" where
  "isDigit c = (c \<in> set ''0123456789'')"

definition isIdentStart :: "char \<Rightarrow> bool" where
  "isIdentStart c = (c \<in> set ''abcdefghijklmnopqrstuvwxyzABCDEFGHIJKLMNOPQRSTUVWXYZ_$'')"

definition isIdentPart :: "char \<Rightarrow> bool" where
  "isIdentPart c = (isIdentStart c \<or> isDigit c)"

definition isSpace :: "char \<Rightarrow> bool" where
  "isSpace c = (c = CHR '' '' \<or> c = CHR 0x09 \<or> c = CHR 0x0A \<or> c = CHR 0x0D)"

definition isLineEnd :: "char \<Rightarrow> bool" where
  "isLineEnd c = (c = CHR 0x0A \<or> c = CHR 0x0D)"

text \<open>The characters a comment may hold in the model: printable ASCII and the tab.\<close>

definition isPlain :: "char \<Rightarrow> bool" where
  "isPlain c = ((32 \<le> (of_char c :: nat) \<and> (of_char c :: nat) \<le> 126) \<or> c = CHR 0x09)"

definition digitsValue :: "string \<Rightarrow> int" where
  "digitsValue ds = foldl (\<lambda>n c. 10 * n + (of_char c - 48)) 0 ds"

definition numberToken :: "bool \<Rightarrow> string \<Rightarrow> token" where
  "numberToken negative ds = TNumber (if negative then - digitsValue ds else digitsValue ds)"

text \<open>Modelled from the spec: the scanner between two tokens.\<close>

definition lexStart :: "char \<Rightarrow> (token list \<times> lexState) option" where
  "lexStart c =
     (if isSpace c then Some ([], LStart)
      else if c = CHR ''{'' then Some ([TLBrace], LStart)
      else if c = CHR ''}'' then Some ([TRBrace], LStart)
      else if c = CHR ''['' then Some ([TLBracket], LStart)
      else if c = CHR '']'' then Some ([TRBracket], LStart)
      else if c = CHR '':'' then Some ([TColon], LStart)
      else if c = CHR '','' then Some ([TComma], LStart)
      else if c = CHR 0x22 then Some ([], LString [])
      else if c = CHR ''/'' then Some ([], LSlash)
      else if c = CHR ''-'' then Some ([], LMinus)
      else if isDigit c then Some ([], LNumber False [c])
      else if isIdentStart c then Some ([], LIdent [c])
      else None)"

text \<open>The character an escape in a string stands for.\<close>

definition unescape :: "char \<Rightarrow> char option" where
  "unescape c =
     (if c = CHR 0x22 \<or> c = CHR 0x5C \<or> c = CHR ''/'' then Some c
      else if c = CHR ''b'' then Some (CHR 0x08)
      else if c = CHR ''f'' then Some (CHR 0x0C)
      else if c = CHR ''n'' then Some (CHR 0x0A)
      else if c = CHR ''r'' then Some (CHR 0x0D)
      else if c = CHR ''t'' then Some (CHR 0x09)
      else None)"

text \<open>
  Modelled from the spec: one step of the scanner, the tokens it completes and its next
  state. An identifier or a number ends at the first character that cannot continue it, and
  that character is then read as the start of what follows. A number with a leading zero, a
  fraction or a letter after it is outside the model, and so is a control character in a
  string.
\<close>

fun lexStep :: "lexState \<Rightarrow> char \<Rightarrow> (token list \<times> lexState) option" where
  "lexStep LStart c = lexStart c"
| "lexStep (LIdent s) c =
     (if isIdentPart c then Some ([], LIdent (s @ [c]))
      else map_option (\<lambda>(ts, st). (TIdent s # ts, st)) (lexStart c))"
| "lexStep LMinus c = (if isDigit c then Some ([], LNumber True [c]) else None)"
| "lexStep (LNumber negative ds) c =
     (if isDigit c then (if ds = ''0'' then None else Some ([], LNumber negative (ds @ [c])))
      else if isIdentPart c \<or> c = CHR ''.'' then None
      else map_option (\<lambda>(ts, st). (numberToken negative ds # ts, st)) (lexStart c))"
| "lexStep (LString s) c =
     (if c = CHR 0x22 then Some ([TString s], LStart)
      else if c = CHR 0x5C then Some ([], LEscape s)
      else if (of_char c :: nat) < 32 then None
      else Some ([], LString (s @ [c])))"
| "lexStep (LEscape s) c =
     (case unescape c of None \<Rightarrow> None | Some d \<Rightarrow> Some ([], LString (s @ [d])))"
| "lexStep LSlash c =
     (if c = CHR ''/'' then Some ([], LLine)
      else if c = CHR ''*'' then Some ([], LBlock)
      else None)"
| "lexStep LLine c =
     (if isLineEnd c then Some ([], LStart)
      else if isPlain c then Some ([], LLine)
      else None)"
| "lexStep LBlock c =
     (if c = CHR ''*'' then Some ([], LBlockStar)
      else if isPlain c \<or> isLineEnd c then Some ([], LBlock)
      else None)"
| "lexStep LBlockStar c =
     (if c = CHR ''/'' then Some ([], LStart)
      else if c = CHR ''*'' then Some ([], LBlockStar)
      else if isPlain c \<or> isLineEnd c then Some ([], LBlock)
      else None)"

text \<open>The end of the text: a string or a block comment must be closed by then.\<close>

fun lexEnd :: "lexState \<Rightarrow> token list option" where
  "lexEnd LStart = Some []"
| "lexEnd (LIdent s) = Some [TIdent s]"
| "lexEnd (LNumber negative ds) = Some [numberToken negative ds]"
| "lexEnd LLine = Some []"
| "lexEnd st = None"

fun lexFrom :: "lexState \<Rightarrow> string \<Rightarrow> token list option" where
  "lexFrom st [] = lexEnd st"
| "lexFrom st (c # cs) =
     (case lexStep st c of
        None \<Rightarrow> None
      | Some (ts, st') \<Rightarrow> map_option (\<lambda>rest. ts @ rest) (lexFrom st' cs))"

text \<open>
  The stack of the parser holds the arrays and objects that are open, each with what it
  has so far and what may come next: in an array a value or the closing bracket (after the
  opening bracket and after a comma), or a comma or the closing bracket (after a value); in
  an object a key or the closing brace, then a colon, then a value, then a comma or the
  closing brace.
\<close>

datatype frame = ArrOpen "json list" | ArrValue "json list"
  | ObjOpen "(string \<times> json) list" | ObjKey "(string \<times> json) list" string
  | ObjColon "(string \<times> json) list" string | ObjValue "(string \<times> json) list"

datatype parseState = Parsing "frame list" | Finished json

text \<open>A member with a key the object already has takes that member's place.\<close>

fun setMember :: "(string \<times> json) list \<Rightarrow> string \<Rightarrow> json \<Rightarrow> (string \<times> json) list" where
  "setMember [] k v = [(k, v)]"
| "setMember ((k', v') # ms) k v =
     (if k' = k then (k, v) # ms else (k', v') # setMember ms k v)"

fun pushValue :: "json \<Rightarrow> frame list \<Rightarrow> parseState option" where
  "pushValue v [] = Some (Finished v)"
| "pushValue v (ArrOpen es # st) = Some (Parsing (ArrValue (es @ [v]) # st))"
| "pushValue v (ObjColon ms k # st) = Some (Parsing (ObjValue (setMember ms k v) # st))"
| "pushValue v (f # st) = None"

fun startValue :: "frame list \<Rightarrow> token \<Rightarrow> parseState option" where
  "startValue st TLBracket = Some (Parsing (ArrOpen [] # st))"
| "startValue st TLBrace = Some (Parsing (ObjOpen [] # st))"
| "startValue st (TString s) = pushValue (JStr s) st"
| "startValue st (TNumber n) = pushValue (JNum n) st"
| "startValue st (TIdent s) =
     (if s = ''null'' then pushValue JNull st
      else if s = ''true'' then pushValue (JBool True) st
      else if s = ''false'' then pushValue (JBool False) st
      else None)"
| "startValue st t = None"

text \<open>
  Modelled from the spec: one step of the parser. The closing bracket or brace is taken
  after a comma as it is after the opening one, which is what permits a trailing comma; a
  key is a string or an identifier, which is what permits unquoted keys.
\<close>

fun parseStep :: "parseState \<Rightarrow> token \<Rightarrow> parseState option" where
  "parseStep (Finished v) t = None"
| "parseStep (Parsing []) t = startValue [] t"
| "parseStep (Parsing (ArrOpen es # st)) t =
     (if t = TRBracket then pushValue (JArr es) st else startValue (ArrOpen es # st) t)"
| "parseStep (Parsing (ArrValue es # st)) t =
     (if t = TComma then Some (Parsing (ArrOpen es # st))
      else if t = TRBracket then pushValue (JArr es) st
      else None)"
| "parseStep (Parsing (ObjOpen ms # st)) t =
     (case t of
        TRBrace \<Rightarrow> pushValue (JObj ms) st
      | TString k \<Rightarrow> Some (Parsing (ObjKey ms k # st))
      | TIdent k \<Rightarrow> Some (Parsing (ObjKey ms k # st))
      | _ \<Rightarrow> None)"
| "parseStep (Parsing (ObjKey ms k # st)) t =
     (if t = TColon then Some (Parsing (ObjColon ms k # st)) else None)"
| "parseStep (Parsing (ObjColon ms k # st)) t = startValue (ObjColon ms k # st) t"
| "parseStep (Parsing (ObjValue ms # st)) t =
     (if t = TComma then Some (Parsing (ObjOpen ms # st))
      else if t = TRBrace then pushValue (JObj ms) st
      else None)"

fun parseTokens :: "parseState \<Rightarrow> token list \<Rightarrow> parseState option" where
  "parseTokens st [] = Some st"
| "parseTokens st (t # ts) =
     (case parseStep st t of None \<Rightarrow> None | Some st' \<Rightarrow> parseTokens st' ts)"

text \<open>
  Modelled from the spec: the value of a text of the modelled grammar, one value and
  nothing after it.
\<close>

definition parseJSON5 :: "string \<Rightarrow> json option" where
  "parseJSON5 content =
     (case lexFrom LStart content of
        None \<Rightarrow> None
      | Some ts \<Rightarrow>
          (case parseTokens (Parsing []) ts of
             Some (Finished v) \<Rightarrow> Some v
           | _ \<Rightarrow> None))"

text \<open>
  Modelled from the spec: \<^verbatim>\<open>JSON5.parse(content)\<close> as \<^verbatim>\<open>loadConfig\<close> calls it.
\<close>

definition JSON5_parse :: "env \<Rightarrow> string \<Rightarrow> thrown + json" where
  "JSON5_parse e content =
     (case parseJSON5 content of Some v \<Rightarrow> Inr v | None \<Rightarrow> JSON5_other e content)"

section \<open>loadConfig\<close>

definition isESM :: "string \<Rightarrow> json \<Rightarrow> bool" where
  "isESM filePath pkg =
     (let isTypeModule = (optionalProp pkg ''type'' = JStr ''module'')
      in list_ex (\<lambda>type. endsWith filePath type) [''mjs'', ''mts'']
         \<or> (isTypeModule \<and> list_ex (\<lambda>type. endsWith filePath type) [''js'', ''ts'']))"

text \<open>
  The three \<^verbatim>\<open>if\<close> statements after the structured-data case run one after the other, each
  on the value the one before left in \<^verbatim>\<open>userConfig\<close>. The calls of the logger and of the
  clock are left out.
\<close>

definition loadConfig :: "env \<Rightarrow> string \<Rightarrow> json \<Rightarrow> world \<Rightarrow> (thrown + json) \<times> world" where
  "loadConfig e filePath pkg w =
     (let isJson = endsWith filePath ''.json'';
          isTs = endsWith filePath ''ts'';
          isJs = endsWith filePath ''js'';
          esm = isESM filePath pkg
      in if isJson then
           (case readFileSync e filePath w of
              Inl err \<Rightarrow> (Inl err, w)
            | Inr content \<Rightarrow> (JSON5_parse e content, w))
         else
           andThen (if esm \<and> isJs
                    then andThen (dynamicImport e filePath True w)
                           (\<lambda>m w'. (Inr (optionalProp m ''default''), w'))
                    else (Inr JUndefined, w))
             (\<lambda>userConfig1 w1.
                andThen (if \<not> esm \<and> isJs then require e filePath w1
                         else (Inr userConfig1, w1))
                  (\<lambda>userConfig2 w2.
                     if isTs then
                       andThen (buildConfig e filePath (if esm then ''esm'' else ''cjs'') w2)
                         (\<lambda>code w3. executeTypescriptModule e code filePath esm w3)
                     else (Inr userConfig2, w2))))"

text \<open>
  The classification as the specification words it: a suffix that marks the file as an
  ES module (\<^verbatim>\<open>.mjs\<close>, \<^verbatim>\<open>.mts\<close>), or a manifest of type \<^verbatim>\<open>module\<close> and one of the
  suffixes \<^verbatim>\<open>.js\<close> and \<^verbatim>\<open>.ts\<close>.
\<close>

definition spec_isESM :: "string \<Rightarrow> json \<Rightarrow> bool" where
  "spec_isESM filePath pkg =
     (suffix ''.mjs'' filePath \<or> suffix ''.mts'' filePath
      \<or> (optionalProp pkg ''type'' = JStr ''module''
          \<and> (suffix ''.js'' filePath \<or> suffix ''.ts'' filePath)))"

section \<open>resolveConfigFile\<close>

record commandArgs =
  args_config :: "string option"
  args_mode :: "string option"

text \<open>\<^verbatim>\<open>path.isAbsolute\<close> and \<^verbatim>\<open>path.resolve\<close> of Node.js, in their POSIX form.\<close>

definition path_isAbsolute :: "string \<Rightarrow> bool" where
  "path_isAbsolute p = (case p of [] \<Rightarrow> False | c # cs \<Rightarrow> c = CHR ''/'')"

fun splitPath :: "string \<Rightarrow> string list" where
  "splitPath [] = [[]]"
| "splitPath (c # cs) =
     (if c = CHR ''/'' then [] # splitPath cs
      else (case splitPath cs of [] \<Rightarrow> [[c]] | s # ss \<Rightarrow> (c # s) # ss))"

fun joinPath :: "string list \<Rightarrow> string" where
  "joinPath [] = []"
| "joinPath [s] = s"
| "joinPath (s # t # ss) = s @ ''/'' @ joinPath (t # ss)"

text \<open>
  \<^verbatim>\<open>normalizeString\<close>, on the segments between the slashes: empty segments and \<^verbatim>\<open>.\<close> are
  dropped, \<^verbatim>\<open>..\<close> removes the segment before it, and at the start it is kept only when the
  path is relative.
\<close>

fun normalizeSegments :: "bool \<Rightarrow> string list \<Rightarrow> string list \<Rightarrow> string list" where
  "normalizeSegments allowAboveRoot res [] = rev res"
| "normalizeSegments allowAboveRoot res (s # ss) =
     (if s = [] \<or> s = ''.'' then normalizeSegments allowAboveRoot res ss
      else if s = ''..'' then
        (case res of
           [] \<Rightarrow> normalizeSegments allowAboveRoot (if allowAboveRoot then [''..''] else []) ss
         | t # ts \<Rightarrow>
             if t = ''..''
             then normalizeSegments allowAboveRoot (if allowAboveRoot then ''..'' # res else res) ss
             else normalizeSegments allowAboveRoot ts ss)
      else normalizeSegments allowAboveRoot (s # res) ss)"

text \<open>
  The loop of \<^verbatim>\<open>path.resolve\<close>: the arguments from the last to the first, then the working
  directory, until an absolute one is met; empty arguments are skipped.
\<close>

fun resolveArgs :: "string list \<Rightarrow> string \<Rightarrow> string \<times> bool" where
  "resolveArgs [] resolvedPath = (resolvedPath, False)"
| "resolveArgs (p # ps) resolvedPath =
     (if p = [] then resolveArgs ps resolvedPath
      else if path_isAbsolute p then (p @ ''/'' @ resolvedPath, True)
      else resolveArgs ps (p @ ''/'' @ resolvedPath))"

definition path_resolve :: "string \<Rightarrow> string list \<Rightarrow> string" where
  "path_resolve workingDir args =
     (case resolveArgs (rev args @ [workingDir]) [] of
        (resolvedPath, resolvedAbsolute) \<Rightarrow>
          let normalized =
                joinPath (normalizeSegments (\<not> resolvedAbsolute) [] (splitPath resolvedPath))
          in if resolvedAbsolute then ''/'' @ normalized
             else if normalized \<noteq> [] then normalized else ''.'')"

text \<open>
  \<^verbatim>\<open>if (config)\<close> is false for a missing and for an empty path. The search result is
  destructured as \<^verbatim>\<open>[defaultUserConfig]\<close>: its first element, or nothing.
\<close>

definition firstMatch :: "env \<Rightarrow> string list \<Rightarrow> string \<Rightarrow> thrown + string option" where
  "firstMatch e configFile rootDir =
     (case fg e configFile rootDir of
        Inl err \<Rightarrow> Inl err
      | Inr found \<Rightarrow> Inr (case found of [] \<Rightarrow> None | m # ms \<Rightarrow> Some m))"

definition resolveConfigFile ::
  "env \<Rightarrow> string list \<Rightarrow> commandArgs \<Rightarrow> string \<Rightarrow> thrown + string option" where
  "resolveConfigFile e configFile args rootDir =
     (case args_config args of
        None \<Rightarrow> firstMatch e configFile rootDir
      | Some c \<Rightarrow>
          if c \<noteq> [] then
            Inr (Some (if path_isAbsolute c then c else path_resolve (cwd e) [rootDir, c]))
          else firstMatch e configFile rootDir)"

text \<open>
  A path segment with nothing for \<^verbatim>\<open>path.resolve\<close> to normalise: not empty, without a
  slash, and neither \<^verbatim>\<open>.\<close> nor \<^verbatim>\<open>..\<close>.
\<close>

definition plainSegment :: "string \<Rightarrow> bool" where
  "plainSegment s = (s \<noteq> [] \<and> CHR ''/'' \<notin> set s \<and> s \<noteq> ''.'' \<and> s \<noteq> ''..'')"

section \<open>Example configurations\<close>

definition example_override :: override where
  "example_override =
     Override (Some [PluginInfo ''B'' (JObj [(''x'', JNum 2)]), PluginName ''C''])
       None [''minify'' \<mapsto> JBool False]"

definition example_config :: userConfig where
  "example_config =
     \<lparr> plugins = [PluginName ''A'', PluginInfo ''B'' (JObj [(''x'', JNum 1)])],
       modeConfig = Some [''dev'' \<mapsto> example_override],
       others = [''minify'' \<mapsto> JBool True, ''outputDir'' \<mapsto> JStr ''dist''] \<rparr>"

definition empty_mode_override :: override where
  "empty_mode_override = Override (Some [PluginName ''C'']) None Map.empty"

definition empty_mode_config :: userConfig where
  "empty_mode_config =
     \<lparr> plugins = [PluginName ''A''],
       modeConfig = Some [[] \<mapsto> empty_mode_override],
       others = Map.empty \<rparr>"

definition repeated_base_config :: userConfig where
  "repeated_base_config =
     \<lparr> plugins = [PluginName ''A'', PluginInfo ''A'' (JObj [])],
       modeConfig = Some [''dev'' \<mapsto> Override (Some []) None Map.empty],
       others = Map.empty \<rparr>"

definition repeated_override_config :: userConfig where
  "repeated_override_config =
     \<lparr> plugins = [],
       modeConfig = Some [''dev'' \<mapsto> Override (Some [PluginName ''C'', PluginName ''C'']) None Map.empty],
       others = Map.empty \<rparr>"

definition no_modes_config :: userConfig where
  "no_modes_config = \<lparr> plugins = [PluginName ''A''], modeConfig = None, others = Map.empty \<rparr>"

text \<open>
  A manifest of type \<^verbatim>\<open>module\<close>, and collaborators for the examples. \<open>quiet_env\<close> refuses no
  file operation and loads every module without an error. \<open>throwing_env\<close> imports a module
  that throws an \<^verbatim>\<open>Error\<close> whose stack was read before it is caught and names the file in
  its message line and in a frame; \<open>nested_throwing_env\<close> imports one whose error is thrown
  from a function of the module, so that its stack, not yet formatted, has two frames of the
  file. \<open>stopping_env\<close> imports a module that throws a string, \<open>removing_env\<close> one that
  deletes its own file before it throws the string. \<open>relative_env\<close> resolves absolute paths
  only, as \<^verbatim>\<open>require.resolve\<close> does with a name that is neither absolute nor starts with a
  dot. \<open>searching_env\<close> finds two files under \<^verbatim>\<open>/proj\<close>.
\<close>

definition module_pkg :: json where
  "module_pkg = JObj [(''name'', JStr ''app''), (''type'', JStr ''module'')]"

definition script_error :: "string \<Rightarrow> js_error" where
  "script_error p =
     \<lparr> name = ''Error'',
       message = ''boom in '' @ p,
       stack = Formatted
         (''Error: boom in '' @ p @ [CHR 0x0A] @ ''    at file://'' @ p @ '':1:7'') \<rparr>"

definition nested_error :: "string \<Rightarrow> js_error" where
  "nested_error p =
     \<lparr> name = ''Error'',
       message = ''boom'',
       stack = NotFormatted
         ([CHR 0x0A] @ ''    at load (file://'' @ p @ '':2:9)''
          @ [CHR 0x0A] @ ''    at file://'' @ p @ '':5:1'') \<rparr>"

definition platform_error :: "string \<Rightarrow> string \<Rightarrow> thrown" where
  "platform_error kind detail =
     ErrorObj \<lparr> name = kind, message = detail, stack = NotFormatted [] \<rparr>"

definition quiet_env :: env where
  "quiet_env =
     \<lparr> cwd = ''/home/user'',
       fg = (\<lambda>patterns root. Inr []),
       fs_refuses = (\<lambda>operation p w. None),
       notFound = (\<lambda>operation p.
         platform_error ''Error'' (''ENOENT: no such file or directory, ''
           @ (if operation = ''unlinkSync'' then ''unlink'' else ''open'')
           @ '' '' @ [CHR 0x27] @ p @ [CHR 0x27])),
       undefinedRead = (\<lambda>property.
         platform_error ''TypeError'' (''Cannot read properties of undefined (reading ''
           @ [CHR 0x27] @ property @ [CHR 0x27] @ '')'')),
       require_resolve = (\<lambda>p w. Inr p),
       require = (\<lambda>p w. (Inr (JObj [(''a'', JNum 1)]), w\<lparr> cache := insert p (cache w) \<rparr>)),
       dynamicImport = (\<lambda>p t w. (Inr (JObj [(''default'', JObj [(''a'', JNum 1)])]), w)),
       buildConfig = (\<lambda>p format w. (Inr ''export default { a: 1 }'', w)),
       JSON5_other = (\<lambda>content. Inl (platform_error ''SyntaxError'' ''JSON5: invalid input'')) \<rparr>"

definition throwing_env :: env where
  "throwing_env = quiet_env \<lparr> dynamicImport := (\<lambda>p t w. (Inl (ErrorObj (script_error p)), w)) \<rparr>"

definition nested_throwing_env :: env where
  "nested_throwing_env =
     quiet_env \<lparr> dynamicImport := (\<lambda>p t w. (Inl (ErrorObj (nested_error p)), w)) \<rparr>"

definition stopping_env :: env where
  "stopping_env = quiet_env \<lparr> dynamicImport := (\<lambda>p t w. (Inl (NonError (JStr ''stop'')), w)) \<rparr>"

definition removing_env :: env where
  "removing_env =
     quiet_env \<lparr> dynamicImport := (\<lambda>p t w.
        (Inl (NonError (JStr ''stop'')), w\<lparr> files := (files w)(p := None) \<rparr>)) \<rparr>"

definition relative_env :: env where
  "relative_env =
     quiet_env \<lparr> require_resolve := (\<lambda>p w.
        if path_isAbsolute p then Inr p
        else Inl (platform_error ''Error''
               (''Cannot find module '' @ [CHR 0x27] @ p @ [CHR 0x27]))) \<rparr>"

definition project_world :: world where
  "project_world =
     \<lparr> files = [''/proj/build.config.ts'' \<mapsto> ''export default { a: 1 }'',
                 ''/proj/build.json'' \<mapsto> ''{a:1, /*c*/ b:2,}''],
       cache = {} \<rparr>"

definition searching_env :: env where
  "searching_env =
     quiet_env \<lparr> fg := (\<lambda>patterns root.
        if root = ''/proj'' then Inr [''/proj/build.config.ts'', ''/proj/build.json'']
        else Inr []) \<rparr>"

section \<open>Properties of mergeModeConfig\<close>

lemma indexOf_ge: "indexOf xs x \<ge> - 1"
  by (induction xs) (auto simp: Let_def)

lemma indexOf_mem: "indexOf xs x > - 1 \<longleftrightarrow> x \<in> set xs"
  using indexOf_ge [of _ x] by (induction xs) (auto simp: Let_def)

lemma indexOf_takeWhile:
  "x \<in> set xs \<Longrightarrow> nat (indexOf xs x) = length (takeWhile (\<lambda>y. y \<noteq> x) xs)"
proof (induction xs)
  case Nil
  then show ?case by simp
next
  case (Cons y ys)
  show ?case
  proof (cases "y = x")
    case True
    then show ?thesis by simp
  next
    case False
    with Cons.prems have mem: "x \<in> set ys" by simp
    then have "indexOf ys x > - 1" by (simp add: indexOf_mem)
    with False Cons.IH [OF mem] show ?thesis by (simp add: Let_def nat_add_distrib)
  qed
qed

lemma indexOf_less: "x \<in> set xs \<Longrightarrow> nat (indexOf xs x) < length xs"
proof -
  assume mem: "x \<in> set xs"
  then have "takeWhile (\<lambda>y. y \<noteq> x) xs \<noteq> xs" by auto
  moreover have "length (takeWhile (\<lambda>y. y \<noteq> x) xs) \<le> length xs"
    by (rule length_takeWhile_le)
  ultimately have "length (takeWhile (\<lambda>y. y \<noteq> x) xs) < length xs"
    by (metis le_neq_implies_less takeWhile_eq_take take_all order_refl)
  then show ?thesis by (simp add: indexOf_takeWhile [OF mem])
qed

lemma indexOf_nth: "x \<in> set xs \<Longrightarrow> xs ! nat (indexOf xs x) = x"
  using nth_length_takeWhile [of "\<lambda>y. y \<noteq> x" xs] indexOf_less [of x xs]
  by (simp add: indexOf_takeWhile)

lemma mergePlugin_old:
  "pluginKey p \<in> set keys \<Longrightarrow>
   mergePlugin keys p acc = acc[nat (indexOf keys (pluginKey p)) := p]"
  by (simp add: mergePlugin_def Let_def indexOf_mem)

lemma mergePlugin_new:
  "pluginKey p \<notin> set keys \<Longrightarrow> mergePlugin keys p acc = acc @ [p]"
  by (simp add: mergePlugin_def Let_def indexOf_mem)

lemma mergePlugin_reconcile_step:
  "mergePlugin (map pluginKey base) p working =
     (if pluginKey p \<in> pluginKey ` set base
      then working[length (takeWhile (\<lambda>q. pluginKey q \<noteq> pluginKey p) base) := p]
      else working @ [p])"
proof (cases "pluginKey p \<in> pluginKey ` set base")
  case True
  then have mem: "pluginKey p \<in> set (map pluginKey base)" by simp
  have "nat (indexOf (map pluginKey base) (pluginKey p)) =
        length (takeWhile (\<lambda>q. pluginKey q \<noteq> pluginKey p) base)"
    by (simp add: indexOf_takeWhile [OF mem] takeWhile_map comp_def)
  with True mem show ?thesis by (simp add: mergePlugin_old del: set_map)
next
  case False
  then show ?thesis by (simp add: mergePlugin_new)
qed

lemma fold_mergePlugin_reconcile:
  "fold (mergePlugin (map pluginKey base)) ps working = reconcile base working ps"
  by (induction ps arbitrary: working) (simp_all add: mergePlugin_reconcile_step)

lemma fold_mergePlugin_split:
  "length keys \<le> length acc \<Longrightarrow>
   fold (mergePlugin keys) ps (acc @ xs) =
     fold (mergePlugin keys) (filter (\<lambda>p. pluginKey p \<in> set keys) ps) acc
       @ xs @ filter (\<lambda>p. pluginKey p \<notin> set keys) ps"
proof (induction ps arbitrary: acc xs)
  case Nil
  then show ?case by simp
next
  case (Cons p ps)
  show ?case
  proof (cases "pluginKey p \<in> set keys")
    case True
    let ?i = "nat (indexOf keys (pluginKey p))"
    have "?i < length acc" using indexOf_less [OF True] Cons.prems by simp
    then have "(acc @ xs)[?i := p] = acc[?i := p] @ xs" by (simp add: list_update_append1)
    moreover have "length keys \<le> length (acc[?i := p])" using Cons.prems by simp
    ultimately show ?thesis
      using True Cons.IH [of "acc[?i := p]" xs] by (simp add: mergePlugin_old)
  next
    case False
    then show ?thesis
      using Cons.IH [OF Cons.prems, of "xs @ [p]"] by (simp add: mergePlugin_new)
  qed
qed

lemma fold_mergePlugin_old_length:
  "length (fold (mergePlugin keys) (filter (\<lambda>p. pluginKey p \<in> set keys) ps) acc) = length acc"
  by (induction ps arbitrary: acc) (simp_all add: mergePlugin_old)

lemma fold_mergePlugin_old_keys:
  "take (length keys) (map pluginKey acc) = keys \<Longrightarrow>
   map pluginKey (fold (mergePlugin keys) (filter (\<lambda>p. pluginKey p \<in> set keys) ps) acc)
     = map pluginKey acc"
proof (induction ps arbitrary: acc)
  case Nil
  then show ?case by simp
next
  case (Cons p ps)
  show ?case
  proof (cases "pluginKey p \<in> set keys")
    case True
    let ?i = "nat (indexOf keys (pluginKey p))"
    have i: "?i < length keys" by (rule indexOf_less [OF True])
    have "map pluginKey acc ! ?i = take (length keys) (map pluginKey acc) ! ?i"
      using i by simp
    also have "\<dots> = pluginKey p" using Cons.prems indexOf_nth [OF True] by simp
    finally have same: "map pluginKey (acc[?i := p]) = map pluginKey acc"
      by (simp add: map_update list_update_same_conv) (metis list_update_id)
    with Cons.prems Cons.IH [of "acc[?i := p]"] True show ?thesis
      by (simp add: mergePlugin_old)
  next
    case False
    with Cons show ?thesis by simp
  qed
qed

lemma fold_mergePlugin_nth:
  "i < length keys \<Longrightarrow> length keys \<le> length acc \<Longrightarrow>
   fold (mergePlugin keys) ps acc ! i =
     (case filter (\<lambda>p. indexOf keys (pluginKey p) = int i) ps of
        [] \<Rightarrow> acc ! i
      | q # qs \<Rightarrow> last (q # qs))"
proof (induction ps arbitrary: acc)
  case Nil
  then show ?case by simp
next
  case (Cons p ps)
  have len: "length keys \<le> length (mergePlugin keys p acc)"
    using Cons.prems by (simp add: mergePlugin_def Let_def)
  have step: "mergePlugin keys p acc ! i =
      (if indexOf keys (pluginKey p) = int i then p else acc ! i)"
    using Cons.prems by (auto simp: mergePlugin_def Let_def nth_append)
  show ?case
    using Cons.IH [OF Cons.prems(1) len] step
    by (simp split: list.splits)
qed

lemma mergeModeConfig_merge:
  assumes "mode \<noteq> []" and "modeConfig cfg = Some mc" and "mc mode = Some ov"
  shows "mergeModeConfig mode cfg =
     \<lparr> plugins = fold (mergePlugin (map pluginKey (plugins cfg))) (overridePlugins ov) (plugins cfg),
       modeConfig = (case o_modeConfig ov of None \<Rightarrow> modeConfig cfg | Some m \<Rightarrow> Some m),
       others = others cfg ++ o_others ov \<rparr>"
  using assms by (simp add: mergeModeConfig_def overridePlugins_def Let_def split: option.splits)

lemma fold_mergePlugin_closed:
  "fold (mergePlugin (map pluginKey base)) ps base =
     fold (mergePlugin (map pluginKey base))
       (filter (\<lambda>p. pluginKey p \<in> pluginKey ` set base) ps) base
     @ filter (\<lambda>p. pluginKey p \<notin> pluginKey ` set base) ps"
  using fold_mergePlugin_split [of "map pluginKey base" base ps "[]"] by simp

lemma fold_mergePlugin_drop:
  "drop (length base) (fold (mergePlugin (map pluginKey base)) ps base) =
     filter (\<lambda>p. pluginKey p \<notin> pluginKey ` set base) ps"
proof -
  have "length (fold (mergePlugin (map pluginKey base))
      (filter (\<lambda>p. pluginKey p \<in> pluginKey ` set base) ps) base) = length base"
    using fold_mergePlugin_old_length [of "map pluginKey base" ps base] by simp
  then show ?thesis by (subst fold_mergePlugin_closed) simp
qed

lemma fold_mergePlugin_keys:
  "map pluginKey (fold (mergePlugin (map pluginKey base)) ps base) =
     map pluginKey base @ map pluginKey (filter (\<lambda>p. pluginKey p \<notin> pluginKey ` set base) ps)"
  using fold_mergePlugin_old_keys [of "map pluginKey base" base ps]
  by (subst fold_mergePlugin_closed) simp

text \<open>
  Claim C1, amended. For every non-empty mode name that \<^verbatim>\<open>modeConfig\<close> has an entry for,
  the plugins of the result are the reconciliation of the specification: starting from the
  base list, each entry of the override's list, in listed order, replaces the entry at the
  first position of its identifier in the base list, and is appended when the base list does
  not have the identifier. So a position of the base list holds the last override entry aimed
  at it, or else its old entry, and the entries after the base positions are the override
  entries with a new identifier, in their order. Every other field of the override,
  \<^verbatim>\<open>modeConfig\<close> included, replaces the field of the same name as a whole.
\<close>
theorem mergeModeConfig_reconciles:
  assumes "mode \<noteq> []" and "modeConfig cfg = Some mc" and "mc mode = Some ov"
  shows "plugins (mergeModeConfig mode cfg)
           = reconcile (plugins cfg) (plugins cfg) (overridePlugins ov)
       \<and> (\<forall>i < length (plugins cfg).
            plugins (mergeModeConfig mode cfg) ! i =
              (case filter (\<lambda>p. indexOf (map pluginKey (plugins cfg)) (pluginKey p) = int i)
                      (overridePlugins ov) of
                 [] \<Rightarrow> plugins cfg ! i
               | q # qs \<Rightarrow> last (q # qs)))
       \<and> drop (length (plugins cfg)) (plugins (mergeModeConfig mode cfg))
           = filter (\<lambda>p. pluginKey p \<notin> pluginKey ` set (plugins cfg)) (overridePlugins ov)
       \<and> (\<forall>k. others (mergeModeConfig mode cfg) k =
            (case o_others ov k of None \<Rightarrow> others cfg k | Some v \<Rightarrow> Some v))
       \<and> (\<forall>m. o_modeConfig ov = Some m \<longrightarrow> modeConfig (mergeModeConfig mode cfg) = Some m)"
proof -
  note m = mergeModeConfig_merge [OF assms]
  have a: "plugins (mergeModeConfig mode cfg)
      = reconcile (plugins cfg) (plugins cfg) (overridePlugins ov)"
    by (simp add: m fold_mergePlugin_reconcile)
  have b: "\<forall>i < length (plugins cfg).
            plugins (mergeModeConfig mode cfg) ! i =
              (case filter (\<lambda>p. indexOf (map pluginKey (plugins cfg)) (pluginKey p) = int i)
                      (overridePlugins ov) of
                 [] \<Rightarrow> plugins cfg ! i
               | q # qs \<Rightarrow> last (q # qs))"
    using fold_mergePlugin_nth [of _ "map pluginKey (plugins cfg)" "plugins cfg" "overridePlugins ov"]
    by (simp add: m)
  have c: "drop (length (plugins cfg)) (plugins (mergeModeConfig mode cfg))
           = filter (\<lambda>p. pluginKey p \<notin> pluginKey ` set (plugins cfg)) (overridePlugins ov)"
    by (simp add: m fold_mergePlugin_drop)
  have d: "\<forall>k. others (mergeModeConfig mode cfg) k =
            (case o_others ov k of None \<Rightarrow> others cfg k | Some v \<Rightarrow> Some v)"
    by (simp add: m map_add_def)
  have e: "\<forall>m. o_modeConfig ov = Some m \<longrightarrow> modeConfig (mergeModeConfig mode cfg) = Some m"
    by (simp add: m)
  from a b c d e show ?thesis by blast
qed

theorem mergeModeConfig_reconciles_witness:
  "''dev'' \<noteq> [] \<and> modeConfig example_config = Some [''dev'' \<mapsto> example_override]
   \<and> [''dev'' \<mapsto> example_override] ''dev'' = Some example_override
   \<and> reconcile (plugins example_config) (plugins example_config) (overridePlugins example_override)
       = [PluginName ''A'', PluginInfo ''B'' (JObj [(''x'', JNum 2)]), PluginName ''C'']
   \<and> plugins (mergeModeConfig ''dev'' example_config)
       = [PluginName ''A'', PluginInfo ''B'' (JObj [(''x'', JNum 2)]), PluginName ''C'']
   \<and> others (mergeModeConfig ''dev'' example_config) ''minify'' = Some (JBool False)
   \<and> others (mergeModeConfig ''dev'' example_config) ''outputDir'' = Some (JStr ''dist'')"
proof -
  have h1: "''dev'' \<noteq> []" by simp
  have h2: "modeConfig example_config = Some [''dev'' \<mapsto> example_override]"
    by (simp add: example_config_def)
  have h3: "[''dev'' \<mapsto> example_override] ''dev'' = Some example_override" by simp
  have r: "reconcile (plugins example_config) (plugins example_config)
      (overridePlugins example_override)
       = [PluginName ''A'', PluginInfo ''B'' (JObj [(''x'', JNum 2)]), PluginName ''C'']"
    by (simp add: example_config_def example_override_def overridePlugins_def)
  have o: "o_others example_override ''minify'' = Some (JBool False)"
    "o_others example_override ''outputDir'' = None"
    "others example_config ''outputDir'' = Some (JStr ''dist'')"
    by (simp_all add: example_config_def example_override_def)
  from mergeModeConfig_reconciles [OF h1 h2 h3] h1 h2 h3 r o show ?thesis by simp
qed

theorem mergeModeConfig_empty_mode_counterexample:
  "modeConfig empty_mode_config = Some [[] \<mapsto> empty_mode_override]
   \<and> [[] \<mapsto> empty_mode_override] [] = Some empty_mode_override
   \<and> plugins (mergeModeConfig [] empty_mode_config) = [PluginName ''A'']
   \<and> reconcile (plugins empty_mode_config) (plugins empty_mode_config)
        (overridePlugins empty_mode_override) = [PluginName ''A'', PluginName ''C'']"
  by (simp add: empty_mode_config_def empty_mode_override_def mergeModeConfig_def
      overridePlugins_def)

text \<open>
  Claim C2, amended. When no identifier occurs twice in the base list, and no identifier that
  the base list lacks occurs twice in the plugins list of the selected override, the plugins
  list of the result has at most one entry per identifier.
\<close>
theorem mergeModeConfig_distinct:
  assumes "distinct (map pluginKey (plugins cfg))"
    and "case modeConfig cfg of
           None \<Rightarrow> True
         | Some mc \<Rightarrow>
             (case mc mode of
                None \<Rightarrow> True
              | Some ov \<Rightarrow>
                  distinct (map pluginKey
                    (filter (\<lambda>p. pluginKey p \<notin> pluginKey ` set (plugins cfg))
                       (overridePlugins ov))))"
  shows "distinct (map pluginKey (plugins (mergeModeConfig mode cfg)))"
proof (cases "\<exists>mc ov. mode \<noteq> [] \<and> modeConfig cfg = Some mc \<and> mc mode = Some ov")
  case True
  then obtain mc ov where h: "mode \<noteq> []" "modeConfig cfg = Some mc" "mc mode = Some ov"
    by blast
  let ?new = "filter (\<lambda>p. pluginKey p \<notin> pluginKey ` set (plugins cfg)) (overridePlugins ov)"
  have "distinct (map pluginKey ?new)" using assms(2) h by simp
  moreover have "set (map pluginKey (plugins cfg)) \<inter> set (map pluginKey ?new) = {}"
    by (auto simp: image_iff)
  ultimately show ?thesis
    using assms(1) by (simp add: mergeModeConfig_merge [OF h] fold_mergePlugin_keys)
next
  case False
  then have "mergeModeConfig mode cfg = cfg"
    by (auto simp: mergeModeConfig_def split: option.splits)
  with assms(1) show ?thesis by simp
qed

theorem mergeModeConfig_distinct_witness:
  "distinct (map pluginKey (plugins example_config))
   \<and> distinct (map pluginKey (plugins (mergeModeConfig ''dev'' example_config)))
   \<and> plugins (mergeModeConfig ''dev'' example_config) \<noteq> plugins example_config"
proof -
  have h1: "distinct (map pluginKey (plugins example_config))"
    by (simp add: example_config_def)
  have h2: "case modeConfig example_config of
           None \<Rightarrow> True
         | Some mc \<Rightarrow>
             (case mc ''dev'' of
                None \<Rightarrow> True
              | Some ov \<Rightarrow>
                  distinct (map pluginKey
                    (filter (\<lambda>p. pluginKey p \<notin> pluginKey ` set (plugins example_config))
                       (overridePlugins ov))))"
    by (simp add: example_config_def example_override_def overridePlugins_def)
  have "plugins (mergeModeConfig ''dev'' example_config) \<noteq> plugins example_config"
    by (simp add: example_config_def example_override_def mergeModeConfig_def mergePlugin_def)
  with mergeModeConfig_distinct [OF h1 h2] h1 show ?thesis by simp
qed

theorem mergeModeConfig_repeated_counterexample:
  "\<not> distinct (map pluginKey (plugins (mergeModeConfig ''dev'' repeated_base_config)))
   \<and> \<not> distinct (map pluginKey (plugins (mergeModeConfig ''dev'' repeated_override_config)))"
  by (simp add: repeated_base_config_def repeated_override_config_def mergeModeConfig_def
      mergePlugin_def)

text \<open>
  Claim C5. With an empty mode, without \<^verbatim>\<open>modeConfig\<close>, or with a \<^verbatim>\<open>modeConfig\<close> that has no
  entry for the mode, \<^verbatim>\<open>mergeModeConfig\<close> returns the configuration it was given.
\<close>
theorem mergeModeConfig_identity:
  "mode = [] \<or> modeConfig cfg = None \<or> (\<exists>mc. modeConfig cfg = Some mc \<and> mc mode = None)
   \<Longrightarrow> mergeModeConfig mode cfg = cfg"
  by (auto simp: mergeModeConfig_def split: option.splits)

theorem mergeModeConfig_identity_witness:
  "mergeModeConfig [] example_config = example_config
   \<and> mergeModeConfig ''dev'' no_modes_config = no_modes_config
   \<and> mergeModeConfig ''prod'' example_config = example_config"
proof -
  have a: "modeConfig no_modes_config = None" by (simp add: no_modes_config_def)
  have b: "\<exists>mc. modeConfig example_config = Some mc \<and> mc ''prod'' = None"
    by (simp add: example_config_def)
  show ?thesis
    using mergeModeConfig_identity [of "[]" example_config]
      mergeModeConfig_identity [of "''dev''" no_modes_config]
      mergeModeConfig_identity [of "''prod''" example_config] a b
    by simp
qed

text \<open>
  Claim C6. In a merge, when the override has no \<^verbatim>\<open>modeConfig\<close> field of its own, the
  \<^verbatim>\<open>modeConfig\<close> of the input is the \<^verbatim>\<open>modeConfig\<close> of the result; and every further field
  that the override does not name keeps its value.
\<close>
theorem mergeModeConfig_frame:
  assumes "mode \<noteq> []" and "modeConfig cfg = Some mc" and "mc mode = Some ov"
  shows "(o_modeConfig ov = None \<longrightarrow> modeConfig (mergeModeConfig mode cfg) = modeConfig cfg)
       \<and> (\<forall>k. k \<notin> dom (o_others ov) \<longrightarrow> others (mergeModeConfig mode cfg) k = others cfg k)"
  by (auto simp: mergeModeConfig_merge [OF assms] map_add_def split: option.splits)

theorem mergeModeConfig_frame_witness:
  "o_modeConfig example_override = None
   \<and> ''outputDir'' \<notin> dom (o_others example_override)
   \<and> modeConfig (mergeModeConfig ''dev'' example_config) = Some [''dev'' \<mapsto> example_override]
   \<and> others (mergeModeConfig ''dev'' example_config) ''outputDir'' = Some (JStr ''dist'')"
proof -
  have h1: "''dev'' \<noteq> []" by simp
  have h2: "modeConfig example_config = Some [''dev'' \<mapsto> example_override]"
    by (simp add: example_config_def)
  have h3: "[''dev'' \<mapsto> example_override] ''dev'' = Some example_override" by simp
  have h4: "o_modeConfig example_override = None" by (simp add: example_override_def)
  have h5: "''outputDir'' \<notin> dom (o_others example_override)"
    by (simp add: example_override_def)
  have v: "others example_config ''outputDir'' = Some (JStr ''dist'')"
    by (simp add: example_config_def)
  from mergeModeConfig_frame [OF h1 h2 h3] h2 h4 h5 v show ?thesis by simp
qed

section \<open>Properties of executeTypescriptModule\<close>

lemma unlinkSync_gone: "unlinkSync e p w = Inr w' \<Longrightarrow> files w' p = None"
  by (auto simp: unlinkSync_def split: option.splits)

text \<open>
  Once the artifact is written and resolved, the module is loaded, and what the function
  does afterwards is decided by the deletion.
\<close>

lemma executeTypescriptModule_loaded:
  assumes "writeFileSync e (tempFileOf filePath isEsm) code w = Inr w1"
    and "require_resolve e (tempFileOf filePath isEsm) w1 = Inr resolved"
    and "(if isEsm
          then dynamicImport e (tempFileOf filePath isEsm) True
                 (w1\<lparr> cache := cache w1 - {resolved} \<rparr>)
          else require e (tempFileOf filePath isEsm) (w1\<lparr> cache := cache w1 - {resolved} \<rparr>))
         = (r, w3)"
  shows "executeTypescriptModule e code filePath isEsm w =
     (case unlinkSync e (tempFileOf filePath isEsm) w3 of
        Inl err' \<Rightarrow> (Inl err', w3)
      | Inr w4 \<Rightarrow>
          (case r of
             Inl err \<Rightarrow> (Inl (hijack e (tempFileOf filePath isEsm) filePath err), w4)
           | Inr raw \<Rightarrow> (Inr (nullishCoalesce (optionalProp raw ''default'') raw), w4)))"
proof (cases isEsm)
  case True
  with assms show ?thesis
    unfolding executeTypescriptModule_def Let_def by (simp split: sum.splits)
next
  case False
  with assms show ?thesis
    unfolding executeTypescriptModule_def Let_def by (simp split: sum.splits)
qed

text \<open>
  On the two paths the \<^verbatim>\<open>try\<close> statement covers, the artifact is gone when the function
  returns or throws, unless the file system refuses the deletion.
\<close>

lemma executeTypescriptModule_deletes_loaded_artifact:
  assumes "writeFileSync e (tempFileOf filePath isEsm) code w = Inr w1"
    and "require_resolve e (tempFileOf filePath isEsm) w1 = Inr resolved"
    and "(if isEsm
          then dynamicImport e (tempFileOf filePath isEsm) True
                 (w1\<lparr> cache := cache w1 - {resolved} \<rparr>)
          else require e (tempFileOf filePath isEsm) (w1\<lparr> cache := cache w1 - {resolved} \<rparr>))
         = (r, w3)"
    and "fs_refuses e ''unlinkSync'' (tempFileOf filePath isEsm) w3 = None"
  shows "files (snd (executeTypescriptModule e code filePath isEsm w))
           (tempFileOf filePath isEsm) = None"
proof (cases "unlinkSync e (tempFileOf filePath isEsm) w3")
  case (Inl err')
  with assms(4) have "files w3 (tempFileOf filePath isEsm) = None"
    by (auto simp: unlinkSync_def split: option.splits)
  with Inl show ?thesis
    by (simp add: executeTypescriptModule_loaded [OF assms(1-3)])
next
  case (Inr w4)
  then have "files w4 (tempFileOf filePath isEsm) = None" by (rule unlinkSync_gone)
  with Inr show ?thesis
    by (simp add: executeTypescriptModule_loaded [OF assms(1-3)] split: sum.splits)
qed

text \<open>
  Claim C4 fails on the code. The artifact is written and \<^verbatim>\<open>require.resolve\<close> is called
  before the \<^verbatim>\<open>try\<close> statement, and nothing deletes the artifact when \<^verbatim>\<open>require.resolve\<close>
  throws. For the relative path \<^verbatim>\<open>rel.config.ts\<close> the artifact \<^verbatim>\<open>rel.config.ts.cjs\<close> was not
  on disk before the call, is not resolved, and is on disk with the compiled code after the
  call has thrown.
\<close>
theorem executeTypescriptModule_leaks_artifact:
  "tempFileOf ''rel.config.ts'' False = ''rel.config.ts.cjs''
   \<and> files project_world ''rel.config.ts.cjs'' = None
   \<and> require_resolve relative_env ''rel.config.ts.cjs''
         (project_world\<lparr> files := (files project_world)
            (''rel.config.ts.cjs'' \<mapsto> ''module.exports = { a: 1 }'') \<rparr>)
       = Inl (platform_error ''Error''
           (''Cannot find module '' @ [CHR 0x27] @ ''rel.config.ts.cjs'' @ [CHR 0x27]))
   \<and> fst (executeTypescriptModule relative_env ''module.exports = { a: 1 }''
         ''rel.config.ts'' False project_world)
       = Inl (platform_error ''Error''
           (''Cannot find module '' @ [CHR 0x27] @ ''rel.config.ts.cjs'' @ [CHR 0x27]))
   \<and> files (snd (executeTypescriptModule relative_env ''module.exports = { a: 1 }''
         ''rel.config.ts'' False project_world)) ''rel.config.ts.cjs''
       = Some ''module.exports = { a: 1 }''"
  by (simp add: executeTypescriptModule_def tempFileOf_def relative_env_def quiet_env_def
      writeFileSync_def project_world_def path_isAbsolute_def Let_def)

text \<open>
  Claim C10, amended. When the module throws a value that is not an \<^verbatim>\<open>Error\<close> and the
  deletion of the artifact in the \<^verbatim>\<open>catch\<close> block succeeds, \<^verbatim>\<open>executeTypescriptModule\<close> throws
  that very value, and the artifact is gone from the state the module left. When the
  deletion throws, what it throws is thrown in place of the value.
\<close>
theorem executeTypescriptModule_rethrows_other_values:
  assumes "writeFileSync e (tempFileOf filePath isEsm) code w = Inr w1"
    and "require_resolve e (tempFileOf filePath isEsm) w1 = Inr resolved"
    and "(if isEsm
          then dynamicImport e (tempFileOf filePath isEsm) True
                 (w1\<lparr> cache := cache w1 - {resolved} \<rparr>)
          else require e (tempFileOf filePath isEsm) (w1\<lparr> cache := cache w1 - {resolved} \<rparr>))
         = (Inl (NonError v), w3)"
  shows "(\<forall>w4. unlinkSync e (tempFileOf filePath isEsm) w3 = Inr w4 \<longrightarrow>
            executeTypescriptModule e code filePath isEsm w = (Inl (NonError v), w4)
            \<and> w4 = w3\<lparr> files := (files w3)(tempFileOf filePath isEsm := None) \<rparr>
            \<and> files w4 (tempFileOf filePath isEsm) = None)
       \<and> (\<forall>err'. unlinkSync e (tempFileOf filePath isEsm) w3 = Inl err' \<longrightarrow>
            executeTypescriptModule e code filePath isEsm w = (Inl err', w3))"
proof -
  note loaded = executeTypescriptModule_loaded [OF assms]
  have a: "\<forall>w4. unlinkSync e (tempFileOf filePath isEsm) w3 = Inr w4 \<longrightarrow>
            executeTypescriptModule e code filePath isEsm w = (Inl (NonError v), w4)
            \<and> w4 = w3\<lparr> files := (files w3)(tempFileOf filePath isEsm := None) \<rparr>
            \<and> files w4 (tempFileOf filePath isEsm) = None"
  proof (intro allI impI)
    fix w4
    assume un: "unlinkSync e (tempFileOf filePath isEsm) w3 = Inr w4"
    have "w4 = w3\<lparr> files := (files w3)(tempFileOf filePath isEsm := None) \<rparr>"
      using un by (auto simp: unlinkSync_def split: option.splits)
    moreover have "files w4 (tempFileOf filePath isEsm) = None"
      using un by (rule unlinkSync_gone)
    moreover have "executeTypescriptModule e code filePath isEsm w = (Inl (NonError v), w4)"
      by (simp add: loaded un hijack_def)
    ultimately show "executeTypescriptModule e code filePath isEsm w = (Inl (NonError v), w4)
            \<and> w4 = w3\<lparr> files := (files w3)(tempFileOf filePath isEsm := None) \<rparr>
            \<and> files w4 (tempFileOf filePath isEsm) = None"
      by blast
  qed
  have b: "\<forall>err'. unlinkSync e (tempFileOf filePath isEsm) w3 = Inl err' \<longrightarrow>
            executeTypescriptModule e code filePath isEsm w = (Inl err', w3)"
    by (simp add: loaded)
  from a b show ?thesis by blast
qed

theorem executeTypescriptModule_rethrows_other_values_witness:
  "executeTypescriptModule stopping_env ''throw 0'' ''/proj/build.config.ts'' True project_world
     = (Inl (NonError (JStr ''stop'')), project_world)
   \<and> files project_world ''/proj/build.config.ts.mjs'' = None"
proof -
  let ?tf = "tempFileOf ''/proj/build.config.ts'' True"
  define w1 where "w1 = project_world\<lparr> files := (files project_world)(?tf \<mapsto> ''throw 0'') \<rparr>"
  define w3 where "w3 = w1\<lparr> cache := cache w1 - {?tf} \<rparr>"
  have h1: "writeFileSync stopping_env ?tf ''throw 0'' project_world = Inr w1"
    by (simp add: writeFileSync_def stopping_env_def quiet_env_def w1_def)
  have h2: "require_resolve stopping_env ?tf w1 = Inr ?tf"
    by (simp add: stopping_env_def quiet_env_def)
  have h3: "(if True then dynamicImport stopping_env ?tf True (w1\<lparr> cache := cache w1 - {?tf} \<rparr>)
             else require stopping_env ?tf (w1\<lparr> cache := cache w1 - {?tf} \<rparr>))
            = (Inl (NonError (JStr ''stop'')), w3)"
    by (simp add: stopping_env_def quiet_env_def w3_def)
  have restored: "w3\<lparr> files := (files w3)(?tf := None) \<rparr> = project_world"
    by (simp add: w3_def w1_def project_world_def tempFileOf_def)
  have un: "unlinkSync stopping_env ?tf w3 = Inr project_world"
    unfolding restored [symmetric]
    by (simp add: unlinkSync_def stopping_env_def quiet_env_def w3_def w1_def)
  have gone: "files project_world ''/proj/build.config.ts.mjs'' = None"
    by (simp add: project_world_def)
  from executeTypescriptModule_rethrows_other_values [OF h1 h2 h3] un gone
  show ?thesis by simp
qed

theorem executeTypescriptModule_lost_value_counterexample:
  "dynamicImport removing_env ''/proj/build.config.ts.mjs'' True
       (project_world\<lparr> files := (files project_world)
          (''/proj/build.config.ts.mjs'' \<mapsto> ''throw 0'') \<rparr>)
     = (Inl (NonError (JStr ''stop'')), project_world)
   \<and> fst (executeTypescriptModule removing_env ''throw 0'' ''/proj/build.config.ts'' True
         project_world)
       = Inl (notFound removing_env ''unlinkSync'' ''/proj/build.config.ts.mjs'')
   \<and> notFound removing_env ''unlinkSync'' ''/proj/build.config.ts.mjs''
       = platform_error ''Error'' (''ENOENT: no such file or directory, unlink ''
           @ [CHR 0x27] @ ''/proj/build.config.ts.mjs'' @ [CHR 0x27])
   \<and> fst (executeTypescriptModule removing_env ''throw 0'' ''/proj/build.config.ts'' True
         project_world)
       \<noteq> Inl (NonError (JStr ''stop''))"
  by (simp add: executeTypescriptModule_def tempFileOf_def removing_env_def quiet_env_def
      writeFileSync_def unlinkSync_def project_world_def platform_error_def Let_def)

text \<open>
  Claim C3 fails on the code: \<^verbatim>\<open>replace\<close> with a string pattern rewrites the first
  occurrence only. A module at \<^verbatim>\<open>/proj/build.config.ts\<close> that throws an error whose stack was
  read before, and names the artifact in its message line and in a frame, surfaces with the
  artifact's path still in the frame. A module whose error comes from a function it calls,
  with two frames of the artifact in a stack not read before, surfaces with the artifact's
  path still in the second frame.
\<close>
theorem executeTypescriptModule_leaves_temp_path:
  "tempFileOf ''/proj/build.config.ts'' True = ''/proj/build.config.ts.mjs''
   \<and> dynamicImport throwing_env ''/proj/build.config.ts.mjs'' True project_world
       = (Inl (ErrorObj
           \<lparr> name = ''Error'',
             message = ''boom in /proj/build.config.ts.mjs'',
             stack = Formatted (''Error: boom in /proj/build.config.ts.mjs'' @ [CHR 0x0A]
                       @ ''    at file:///proj/build.config.ts.mjs:1:7'') \<rparr>), project_world)
   \<and> fst (executeTypescriptModule throwing_env ''throw new Error()'' ''/proj/build.config.ts''
          True project_world)
       = Inl (ErrorObj
           \<lparr> name = ''Error'',
             message = ''boom in /proj/build.config.ts'',
             stack = Formatted (''Error: boom in /proj/build.config.ts'' @ [CHR 0x0A]
                       @ ''    at file:///proj/build.config.ts.mjs:1:7'') \<rparr>)
   \<and> occurrences (''Error: boom in /proj/build.config.ts'' @ [CHR 0x0A]
                       @ ''    at file:///proj/build.config.ts.mjs:1:7'')
         ''/proj/build.config.ts.mjs'' = 1
   \<and> dynamicImport nested_throwing_env ''/proj/build.config.ts.mjs'' True project_world
       = (Inl (ErrorObj
           \<lparr> name = ''Error'',
             message = ''boom'',
             stack = NotFormatted
               ([CHR 0x0A] @ ''    at load (file:///proj/build.config.ts.mjs:2:9)''
                @ [CHR 0x0A] @ ''    at file:///proj/build.config.ts.mjs:5:1'') \<rparr>),
          project_world)
   \<and> fst (executeTypescriptModule nested_throwing_env ''load()'' ''/proj/build.config.ts''
          True project_world)
       = Inl (ErrorObj
           \<lparr> name = ''Error'',
             message = ''boom'',
             stack = Formatted
               (''Error: boom'' @ [CHR 0x0A] @ ''    at load (file:///proj/build.config.ts:2:9)''
                @ [CHR 0x0A] @ ''    at file:///proj/build.config.ts.mjs:5:1'') \<rparr>)
   \<and> occurrences
         (''Error: boom'' @ [CHR 0x0A] @ ''    at load (file:///proj/build.config.ts:2:9)''
          @ [CHR 0x0A] @ ''    at file:///proj/build.config.ts.mjs:5:1'')
         ''/proj/build.config.ts.mjs'' = 1"
  by (simp add: executeTypescriptModule_def tempFileOf_def throwing_env_def
      nested_throwing_env_def quiet_env_def writeFileSync_def unlinkSync_def hijack_def
      readStack_def errorToString_def script_error_def nested_error_def replace_def Let_def)

section \<open>Properties of loadConfig\<close>

lemma endsWith_suffix: "endsWith s t \<longleftrightarrow> suffix t s"
proof
  assume "endsWith s t"
  then have "s = take (length s - length t) s @ t"
    by (metis append_take_drop_id endsWith_def)
  then show "suffix t s" by (metis suffixI)
next
  assume "suffix t s"
  then obtain zs where "s = zs @ t" by (auto simp: suffix_def)
  then show "endsWith s t" by (simp add: endsWith_def)
qed

text \<open>
  Claim C7, amended. A file is classified as an ES module exactly when its path ends with
  \<^verbatim>\<open>mjs\<close> or \<^verbatim>\<open>mts\<close>, or the manifest has type \<^verbatim>\<open>module\<close> and the path ends with \<^verbatim>\<open>js\<close>
  or \<^verbatim>\<open>ts\<close>; no dot is asked for before these letters, so under such a manifest
  \<^verbatim>\<open>.cjs\<close> and \<^verbatim>\<open>.cts\<close> files are ES modules too. Every file that the specification's
  wording classifies as an ES module is classified so.
\<close>
theorem isESM_by_suffix:
  "(isESM filePath pkg \<longleftrightarrow>
      suffix ''mjs'' filePath \<or> suffix ''mts'' filePath
      \<or> (optionalProp pkg ''type'' = JStr ''module''
          \<and> (suffix ''js'' filePath \<or> suffix ''ts'' filePath)))
   \<and> (spec_isESM filePath pkg \<longrightarrow> isESM filePath pkg)"
proof -
  have dot: "\<And>t. suffix (CHR ''.'' # t) filePath \<Longrightarrow> suffix t filePath"
    by (metis suffix_ConsD)
  have a: "isESM filePath pkg \<longleftrightarrow>
      suffix ''mjs'' filePath \<or> suffix ''mts'' filePath
      \<or> (optionalProp pkg ''type'' = JStr ''module''
          \<and> (suffix ''js'' filePath \<or> suffix ''ts'' filePath))"
    by (simp add: isESM_def Let_def endsWith_suffix)
  have "spec_isESM filePath pkg \<longrightarrow> isESM filePath pkg"
    unfolding a spec_isESM_def using dot by blast
  with a show ?thesis by blast
qed

theorem isESM_by_suffix_witness:
  "isESM ''/proj/build.config.mts'' JUndefined
   \<and> isESM ''/proj/build.config.js'' module_pkg
   \<and> \<not> isESM ''/proj/build.config.js'' JUndefined
   \<and> \<not> isESM ''/proj/build.config.cts'' JUndefined
   \<and> spec_isESM ''/proj/build.config.js'' module_pkg"
proof -
  have p: "optionalProp module_pkg ''type'' = JStr ''module''"
    "optionalProp JUndefined ''type'' \<noteq> JStr ''module''"
    by (simp_all add: module_pkg_def optionalProp_def isNullish_def)
  have s: "spec_isESM ''/proj/build.config.js'' module_pkg"
    by (simp add: spec_isESM_def p suffix_def)
  show ?thesis
    using isESM_by_suffix [of "''/proj/build.config.mts''" JUndefined]
      isESM_by_suffix [of "''/proj/build.config.js''" module_pkg]
      isESM_by_suffix [of "''/proj/build.config.js''" JUndefined]
      isESM_by_suffix [of "''/proj/build.config.cts''" JUndefined] p s
    by (simp add: suffix_def)
qed

theorem isESM_commonjs_suffix_counterexample:
  "isESM ''/proj/build.config.cjs'' module_pkg
   \<and> \<not> spec_isESM ''/proj/build.config.cjs'' module_pkg"
  by (simp add: isESM_def spec_isESM_def endsWith_def module_pkg_def optionalProp_def
      isNullish_def suffix_def)

text \<open>
  A comment is skipped where a token may start: a line comment up to the end of its line,
  a block comment up to the first \<^verbatim>\<open>*/\<close>.
\<close>

lemma map_option_append_Nil: "map_option ((@) []) x = x"
  by (cases x) simp_all

lemma map_option_append_two:
  "map_option ((@) [t, u]) x = map_option (\<lambda>ts. t # u # ts) x"
  by (cases x) simp_all

lemma isPlain_not_lineEnd: "isPlain c \<Longrightarrow> \<not> isLineEnd c"
  by (auto simp: isPlain_def isLineEnd_def)

lemma lexFrom_LLine:
  "\<forall>c \<in> set body. isPlain c \<Longrightarrow> isLineEnd nl \<Longrightarrow>
   lexFrom LLine (body @ nl # rest) = lexFrom LStart rest"
  by (induction body) (auto simp: isPlain_not_lineEnd map_option_append_Nil)

lemma lexFrom_line_comment:
  "\<forall>c \<in> set body. isPlain c \<Longrightarrow> isLineEnd nl \<Longrightarrow>
   lexFrom LStart (''//'' @ body @ nl # rest) = lexFrom LStart rest"
  using lexFrom_LLine [of body nl rest]
  by (simp add: lexStart_def isSpace_def map_option_append_Nil)

lemma lexFrom_LBlock:
  "\<forall>c \<in> set body. isPlain c \<or> isLineEnd c \<Longrightarrow> occurrences body ''*/'' = 0 \<Longrightarrow>
   lexFrom LBlock (body @ ''*/'' @ rest) = lexFrom LStart rest
   \<and> (\<not> prefix ''/'' body \<longrightarrow> lexFrom LBlockStar (body @ ''*/'' @ rest) = lexFrom LStart rest)"
proof (induction body)
  case Nil
  then show ?case by (simp add: map_option_append_Nil)
next
  case (Cons c cs)
  from Cons.prems have cs: "\<forall>c \<in> set cs. isPlain c \<or> isLineEnd c" "occurrences cs ''*/'' = 0"
    and ok: "isPlain c \<or> isLineEnd c"
    and here: "\<not> (c = CHR ''*'' \<and> prefix ''/'' cs)"
    by (auto split: if_splits)
  note IH = Cons.IH [OF cs]
  show ?case
  proof (cases "c = CHR ''*''")
    case True
    with here have "\<not> prefix ''/'' cs" by simp
    with IH True show ?thesis by (simp add: map_option_append_Nil)
  next
    case False
    with IH ok show ?thesis by (auto simp: map_option_append_Nil)
  qed
qed

lemma lexFrom_block_comment:
  "\<forall>c \<in> set body. isPlain c \<or> isLineEnd c \<Longrightarrow> occurrences body ''*/'' = 0 \<Longrightarrow>
   lexFrom LStart (''/*'' @ body @ ''*/'' @ rest) = lexFrom LStart rest"
  using lexFrom_LBlock [of body rest]
  by (simp add: lexStart_def isSpace_def map_option_append_Nil)

text \<open>A key written as an identifier is read as the key of that name.\<close>

lemma lexStart_colon: "lexStart (CHR '':'') = Some ([TColon], LStart)"
  by (simp add: lexStart_def isSpace_def)

lemma lexFrom_LIdent:
  "\<forall>d \<in> set cs. isIdentPart d \<Longrightarrow>
   lexFrom (LIdent s) (cs @ CHR '':'' # rest)
     = map_option (\<lambda>ts. TIdent (s @ cs) # TColon # ts) (lexFrom LStart rest)"
proof (induction cs arbitrary: s)
  case Nil
  have "\<not> isIdentPart (CHR '':'')"
    by (simp add: isIdentPart_def isIdentStart_def isDigit_def)
  then show ?case by (simp add: lexStart_colon map_option_append_two)
next
  case (Cons c cs)
  then show ?case using Cons.IH [of "s @ [c]"] by (simp add: map_option_append_Nil)
qed

lemma lexFrom_unquoted_key:
  "isIdentStart c \<Longrightarrow> \<forall>d \<in> set cs. isIdentPart d \<Longrightarrow>
   lexFrom LStart (c # cs @ CHR '':'' # rest)
     = map_option (\<lambda>ts. TIdent (c # cs) # TColon # ts) (lexFrom LStart rest)"
proof -
  assume c: "isIdentStart c" and cs: "\<forall>d \<in> set cs. isIdentPart d"
  have "c \<noteq> CHR ''{''" "c \<noteq> CHR ''}''" "c \<noteq> CHR ''[''" "c \<noteq> CHR '']''" "c \<noteq> CHR '':''"
    "c \<noteq> CHR '',''" "c \<noteq> CHR 0x22" "c \<noteq> CHR ''/''" "c \<noteq> CHR ''-''" "\<not> isSpace c"
    "\<not> isDigit c"
    using c by (auto simp: isIdentStart_def isSpace_def isDigit_def)
  then have "lexStart c = Some ([], LIdent [c])"
    using c by (simp add: lexStart_def)
  then show ?thesis
    using lexFrom_LIdent [OF cs, of "[c]" rest] by (simp add: map_option_append_Nil)
qed

text \<open>
  Claim C8. For a path that ends with \<^verbatim>\<open>.json\<close>, \<^verbatim>\<open>loadConfig\<close> reads the file and returns
  what \<^verbatim>\<open>JSON5.parse\<close> makes of its content, or throws what reading or parsing throws: the
  state is left as it was, and the result depends neither on the manifest nor on the module
  loaders or the compiler. A content of the modelled grammar yields its value. In that
  grammar a comment is skipped, a comma may stand before the closing bracket or brace, and
  an identifier is a key like the string of its letters; the text
  \<^verbatim>\<open>{a:1, /*c*/ b:2,}\<close> has the value \<^verbatim>\<open>{a:1, b:2}\<close>.
\<close>
theorem loadConfig_json:
  "(endsWith filePath ''.json'' \<longrightarrow>
      loadConfig e filePath pkg w =
        (case readFileSync e filePath w of
           Inl err \<Rightarrow> (Inl err, w)
         | Inr content \<Rightarrow> (JSON5_parse e content, w))
      \<and> snd (loadConfig e filePath pkg w) = w
      \<and> (\<forall>e' pkg'. readFileSync e' filePath w = readFileSync e filePath w
             \<and> JSON5_other e' = JSON5_other e \<longrightarrow>
           loadConfig e' filePath pkg' w = loadConfig e filePath pkg w)
      \<and> (\<forall>content v. readFileSync e filePath w = Inr content \<and> parseJSON5 content = Some v
           \<longrightarrow> loadConfig e filePath pkg w = (Inr v, w)))
   \<and> ((\<forall>c \<in> set body. isPlain c \<or> isLineEnd c) \<and> occurrences body ''*/'' = 0 \<longrightarrow>
        lexFrom LStart (''/*'' @ body @ ''*/'' @ rest) = lexFrom LStart rest)
   \<and> ((\<forall>c \<in> set body. isPlain c) \<and> isLineEnd nl \<longrightarrow>
        lexFrom LStart (''//'' @ body @ nl # rest) = lexFrom LStart rest)
   \<and> parseTokens (Parsing (ArrValue es # st)) (TComma # TRBracket # ts)
       = parseTokens (Parsing (ArrValue es # st)) (TRBracket # ts)
   \<and> parseTokens (Parsing (ObjValue ms # st)) (TComma # TRBrace # ts)
       = parseTokens (Parsing (ObjValue ms # st)) (TRBrace # ts)
   \<and> (isIdentStart k \<and> (\<forall>d \<in> set ks. isIdentPart d) \<longrightarrow>
        lexFrom LStart (k # ks @ CHR '':'' # rest)
          = map_option (\<lambda>ts. TIdent (k # ks) # TColon # ts) (lexFrom LStart rest))
   \<and> parseStep (Parsing (ObjOpen ms # st)) (TIdent key)
       = parseStep (Parsing (ObjOpen ms # st)) (TString key)
   \<and> parseJSON5 ''{a:1, /*c*/ b:2,}'' = Some (JObj [(''a'', JNum 1), (''b'', JNum 2)])"
proof -
  have dispatch: "endsWith filePath ''.json'' \<longrightarrow>
      loadConfig e filePath pkg w =
        (case readFileSync e filePath w of
           Inl err \<Rightarrow> (Inl err, w)
         | Inr content \<Rightarrow> (JSON5_parse e content, w))
      \<and> snd (loadConfig e filePath pkg w) = w
      \<and> (\<forall>e' pkg'. readFileSync e' filePath w = readFileSync e filePath w
             \<and> JSON5_other e' = JSON5_other e \<longrightarrow>
           loadConfig e' filePath pkg' w = loadConfig e filePath pkg w)
      \<and> (\<forall>content v. readFileSync e filePath w = Inr content \<and> parseJSON5 content = Some v
           \<longrightarrow> loadConfig e filePath pkg w = (Inr v, w))"
    by (auto simp: loadConfig_def JSON5_parse_def Let_def split: sum.splits option.splits)
  have block: "(\<forall>c \<in> set body. isPlain c \<or> isLineEnd c) \<and> occurrences body ''*/'' = 0 \<longrightarrow>
        lexFrom LStart (''/*'' @ body @ ''*/'' @ rest) = lexFrom LStart rest"
    using lexFrom_block_comment [of body rest] by blast
  have line: "(\<forall>c \<in> set body. isPlain c) \<and> isLineEnd nl \<longrightarrow>
        lexFrom LStart (''//'' @ body @ nl # rest) = lexFrom LStart rest"
    using lexFrom_line_comment [of body nl rest] by blast
  have arr: "parseTokens (Parsing (ArrValue es # st)) (TComma # TRBracket # ts)
       = parseTokens (Parsing (ArrValue es # st)) (TRBracket # ts)"
    by simp
  have obj: "parseTokens (Parsing (ObjValue ms # st)) (TComma # TRBrace # ts)
       = parseTokens (Parsing (ObjValue ms # st)) (TRBrace # ts)"
    by simp
  have unquoted: "isIdentStart k \<and> (\<forall>d \<in> set ks. isIdentPart d) \<longrightarrow>
        lexFrom LStart (k # ks @ CHR '':'' # rest)
          = map_option (\<lambda>ts. TIdent (k # ks) # TColon # ts) (lexFrom LStart rest)"
    using lexFrom_unquoted_key [of k ks rest] by blast
  have key: "parseStep (Parsing (ObjOpen ms # st)) (TIdent key)
       = parseStep (Parsing (ObjOpen ms # st)) (TString key)"
    by simp
  have example: "parseJSON5 ''{a:1, /*c*/ b:2,}''
      = Some (JObj [(''a'', JNum 1), (''b'', JNum 2)])"
    by (simp add: parseJSON5_def lexStart_def isSpace_def isDigit_def isIdentStart_def
        isIdentPart_def isPlain_def isLineEnd_def numberToken_def digitsValue_def)
  from dispatch block line arr obj unquoted key example show ?thesis by blast
qed

theorem loadConfig_json_witness:
  "endsWith ''/proj/build.json'' ''.json''
   \<and> readFileSync quiet_env ''/proj/build.json'' project_world = Inr ''{a:1, /*c*/ b:2,}''
   \<and> loadConfig quiet_env ''/proj/build.json'' module_pkg project_world
       = (Inr (JObj [(''a'', JNum 1), (''b'', JNum 2)]), project_world)
   \<and> lexFrom LStart (''/*'' @ ''c'' @ ''*/'' @ '' b:2,}'') = lexFrom LStart '' b:2,}''
   \<and> lexFrom LStart (''//'' @ '' c'' @ CHR 0x0A # ''[1]'') = lexFrom LStart ''[1]''
   \<and> lexFrom LStart (CHR ''a'' # [] @ CHR '':'' # ''1'')
       = map_option (\<lambda>ts. TIdent [CHR ''a''] # TColon # ts) (lexFrom LStart ''1'')"
proof -
  have h: "endsWith ''/proj/build.json'' ''.json''" by (simp add: endsWith_def)
  have f: "readFileSync quiet_env ''/proj/build.json'' project_world = Inr ''{a:1, /*c*/ b:2,}''"
    by (simp add: readFileSync_def quiet_env_def project_world_def)
  have c1: "(\<forall>c \<in> set ''c''. isPlain c \<or> isLineEnd c) \<and> occurrences ''c'' ''*/'' = 0"
    by (simp add: isPlain_def)
  have c2: "(\<forall>c \<in> set '' c''. isPlain c) \<and> isLineEnd (CHR 0x0A)"
    by (simp add: isPlain_def isLineEnd_def)
  have c3: "isIdentStart (CHR ''a'') \<and> (\<forall>d \<in> set []. isIdentPart d)"
    by (simp add: isIdentStart_def)
  note t = loadConfig_json [where filePath = "''/proj/build.json''" and e = quiet_env
      and pkg = module_pkg and w = project_world]
  have ex: "parseJSON5 ''{a:1, /*c*/ b:2,}'' = Some (JObj [(''a'', JNum 1), (''b'', JNum 2)])"
    using t by blast
  have "\<forall>content v. readFileSync quiet_env ''/proj/build.json'' project_world = Inr content
      \<and> parseJSON5 content = Some v
      \<longrightarrow> loadConfig quiet_env ''/proj/build.json'' module_pkg project_world
            = (Inr v, project_world)"
    using t h by blast
  with f ex have v: "loadConfig quiet_env ''/proj/build.json'' module_pkg project_world
       = (Inr (JObj [(''a'', JNum 1), (''b'', JNum 2)]), project_world)"
    by blast
  have b: "lexFrom LStart (''/*'' @ ''c'' @ ''*/'' @ '' b:2,}'') = lexFrom LStart '' b:2,}''"
    using loadConfig_json [where body = "''c''" and rest = "'' b:2,}''"] c1 by blast
  have l: "lexFrom LStart (''//'' @ '' c'' @ CHR 0x0A # ''[1]'') = lexFrom LStart ''[1]''"
    using loadConfig_json [where body = "'' c''" and nl = "CHR 0x0A" and rest = "''[1]''"] c2
    by blast
  have k: "lexFrom LStart (CHR ''a'' # [] @ CHR '':'' # ''1'')
       = map_option (\<lambda>ts. TIdent [CHR ''a''] # TColon # ts) (lexFrom LStart ''1'')"
    using loadConfig_json [where k = "CHR ''a''" and ks = "[]" and rest = "''1''"] c3
    by blast
  from h f v b l k show ?thesis by blast
qed


section \<open>Properties of resolveConfigFile\<close>

lemma splitPath_plain: "CHR ''/'' \<notin> set s \<Longrightarrow> splitPath s = [s]"
  by (induction s) auto

lemma splitPath_slash:
  "CHR ''/'' \<notin> set s \<Longrightarrow> splitPath (s @ CHR ''/'' # rest) = s # splitPath rest"
  by (induction s) auto

lemma splitPath_joinPath:
  "segs \<noteq> [] \<Longrightarrow> \<forall>s \<in> set segs. CHR ''/'' \<notin> set s \<Longrightarrow> splitPath (joinPath segs) = segs"
proof (induction segs rule: joinPath.induct)
  case 1
  then show ?case by simp
next
  case (2 s)
  then show ?case by (simp add: splitPath_plain)
next
  case (3 s t ss)
  then show ?case using splitPath_slash [of s "joinPath (t # ss)"] by simp
qed

lemma joinPath_append:
  "xs \<noteq> [] \<Longrightarrow> ys \<noteq> [] \<Longrightarrow> joinPath (xs @ ys) = joinPath xs @ ''/'' @ joinPath ys"
proof (induction xs rule: joinPath.induct)
  case 1
  then show ?case by simp
next
  case (2 s)
  then show ?case by (cases ys) simp_all
next
  case (3 s t ss)
  then show ?case by simp
qed

lemma normalizeSegments_plain:
  "\<forall>s \<in> set segs. s = [] \<or> plainSegment s \<Longrightarrow>
   normalizeSegments allowAboveRoot res segs = rev res @ filter (\<lambda>s. s \<noteq> []) segs"
  by (induction segs arbitrary: res) (auto simp: plainSegment_def)

lemma joinPath_relative:
  assumes "list_all plainSegment cs" and "cs \<noteq> []"
  shows "joinPath cs \<noteq> [] \<and> \<not> path_isAbsolute (joinPath cs)"
proof -
  from assms obtain s ss where cs: "cs = s # ss" and s: "plainSegment s"
    by (cases cs) auto
  from s obtain x xs where sx: "s = x # xs" and x: "x \<noteq> CHR ''/''"
    by (cases s) (auto simp: plainSegment_def)
  have "joinPath cs = x # xs @ (if ss = [] then [] else ''/'' @ joinPath ss)"
    unfolding cs sx by (cases ss) simp_all
  with x show ?thesis by (simp add: path_isAbsolute_def)
qed

lemma path_resolve_plain:
  assumes rs: "list_all plainSegment rs" and cs: "list_all plainSegment cs" and ne: "cs \<noteq> []"
  shows "path_resolve workingDir [''/'' @ joinPath rs, joinPath cs] = ''/'' @ joinPath (rs @ cs)"
proof -
  let ?root = "''/'' @ joinPath rs"
  let ?c = "joinPath cs"
  let ?rs' = "if rs = [] then [[]] else rs"
  let ?segs = "[] # ?rs' @ cs @ [[]]"
  have rel: "?c \<noteq> []" "\<not> path_isAbsolute ?c" using joinPath_relative [OF cs ne] by simp_all
  have args: "resolveArgs (rev [?root, ?c] @ [workingDir]) [] = (?root @ ''/'' @ ?c @ ''/'', True)"
    using rel by (simp add: path_isAbsolute_def)
  have jr: "joinPath ?rs' = joinPath rs" by simp
  have "joinPath ?segs = [] @ ''/'' @ joinPath (?rs' @ cs @ [[]])"
    using joinPath_append [of "[[]]" "?rs' @ cs @ [[]]"] by simp
  also have "joinPath (?rs' @ cs @ [[]]) = joinPath ?rs' @ ''/'' @ joinPath (cs @ [[]])"
    using joinPath_append [of ?rs' "cs @ [[]]"] by simp
  also have "joinPath (cs @ [[]]) = ?c @ ''/'' @ []"
    using joinPath_append [of cs "[[]]"] ne by simp
  finally have str: "?root @ ''/'' @ ?c @ ''/'' = joinPath ?segs" by (simp add: jr)
  have noslash: "\<forall>s \<in> set ?segs. CHR ''/'' \<notin> set s"
    using rs cs by (auto simp: list_all_iff plainSegment_def)
  have split: "splitPath (?root @ ''/'' @ ?c @ ''/'') = ?segs"
    unfolding str using splitPath_joinPath [OF _ noslash] by simp
  have plain: "\<forall>s \<in> set ?segs. s = [] \<or> plainSegment s"
    using rs cs by (auto simp: list_all_iff)
  have keep: "filter (\<lambda>s. s \<noteq> []) ?segs = rs @ cs"
  proof -
    have "filter (\<lambda>s. s \<noteq> []) rs = rs" "filter (\<lambda>s. s \<noteq> []) cs = cs"
      using rs cs by (auto simp: list_all_iff plainSegment_def filter_id_conv)
    then show ?thesis by simp
  qed
  have "normalizeSegments False [] ?segs = rev [] @ filter (\<lambda>s. s \<noteq> []) ?segs"
    by (rule normalizeSegments_plain [OF plain])
  then have norm: "normalizeSegments False [] (splitPath (?root @ ''/'' @ ?c @ ''/'')) = rs @ cs"
    unfolding split keep by simp
  show ?thesis
    using norm unfolding path_resolve_def args by (simp add: Let_def)
qed

text \<open>
  Claim C9. A path counts as supplied when \<^verbatim>\<open>commandArgs.config\<close> is a non-empty string. A
  supplied absolute path is returned as it is; a supplied relative path is resolved against
  \<^verbatim>\<open>rootDir\<close> by \<^verbatim>\<open>path.resolve\<close>, which for a root \<^verbatim>\<open>/r1/.../rn\<close> and a path
  \<^verbatim>\<open>c1/.../cm\<close> of plain segments is the root, a slash and the path; neither case looks at
  the file system. Without a supplied path the result is the first match of the search, and
  nothing when the search finds no file.
\<close>
theorem resolveConfigFile_cases:
  "(args_config args = Some c \<and> c \<noteq> [] \<and> path_isAbsolute c \<longrightarrow>
      resolveConfigFile e configFile args rootDir = Inr (Some c))
   \<and> (args_config args = Some c \<and> c \<noteq> [] \<and> \<not> path_isAbsolute c \<longrightarrow>
      resolveConfigFile e configFile args rootDir
        = Inr (Some (path_resolve (cwd e) [rootDir, c])))
   \<and> (args_config args = Some (joinPath cs) \<and> list_all plainSegment cs \<and> cs \<noteq> []
        \<and> list_all plainSegment rs \<and> rs \<noteq> [] \<longrightarrow>
      resolveConfigFile e configFile args (''/'' @ joinPath rs)
        = Inr (Some (''/'' @ joinPath rs @ ''/'' @ joinPath cs)))
   \<and> ((args_config args = None \<or> args_config args = Some []) \<and> fg e configFile rootDir = Inr found
        \<longrightarrow> resolveConfigFile e configFile args rootDir
              = Inr (case found of [] \<Rightarrow> None | m # ms \<Rightarrow> Some m))"
proof -
  have a: "args_config args = Some c \<and> c \<noteq> [] \<and> path_isAbsolute c \<longrightarrow>
      resolveConfigFile e configFile args rootDir = Inr (Some c)"
    by (simp add: resolveConfigFile_def)
  have b: "args_config args = Some c \<and> c \<noteq> [] \<and> \<not> path_isAbsolute c \<longrightarrow>
      resolveConfigFile e configFile args rootDir
        = Inr (Some (path_resolve (cwd e) [rootDir, c]))"
    by (simp add: resolveConfigFile_def)
  have c: "args_config args = Some (joinPath cs) \<and> list_all plainSegment cs \<and> cs \<noteq> []
        \<and> list_all plainSegment rs \<and> rs \<noteq> [] \<longrightarrow>
      resolveConfigFile e configFile args (''/'' @ joinPath rs)
        = Inr (Some (''/'' @ joinPath rs @ ''/'' @ joinPath cs))"
  proof (intro impI, elim conjE)
    assume h: "args_config args = Some (joinPath cs)" "list_all plainSegment cs" "cs \<noteq> []"
      "list_all plainSegment rs" "rs \<noteq> []"
    have rel: "joinPath cs \<noteq> []" "\<not> path_isAbsolute (joinPath cs)"
      using joinPath_relative [OF h(2,3)] by simp_all
    have "path_resolve (cwd e) [''/'' @ joinPath rs, joinPath cs] = ''/'' @ joinPath (rs @ cs)"
      by (rule path_resolve_plain [OF h(4) h(2) h(3)])
    also have "joinPath (rs @ cs) = joinPath rs @ ''/'' @ joinPath cs"
      by (rule joinPath_append [OF h(5) h(3)])
    finally show "resolveConfigFile e configFile args (''/'' @ joinPath rs)
        = Inr (Some (''/'' @ joinPath rs @ ''/'' @ joinPath cs))"
      using h(1) rel by (simp add: resolveConfigFile_def)
  qed
  have d: "(args_config args = None \<or> args_config args = Some []) \<and> fg e configFile rootDir = Inr found
        \<longrightarrow> resolveConfigFile e configFile args rootDir
              = Inr (case found of [] \<Rightarrow> None | m # ms \<Rightarrow> Some m)"
    by (auto simp: resolveConfigFile_def firstMatch_def)
  from a b c d show ?thesis by blast
qed

theorem resolveConfigFile_cases_witness:
  "resolveConfigFile quiet_env [''build.json''] \<lparr> args_config = Some ''cfg.ts'', args_mode = None \<rparr>
       ''/proj'' = Inr (Some ''/proj/cfg.ts'')
   \<and> path_resolve (cwd quiet_env) [''/proj'', ''cfg.ts''] = ''/proj/cfg.ts''
   \<and> resolveConfigFile quiet_env [''build.json'']
       \<lparr> args_config = Some ''/etc/build.json'', args_mode = None \<rparr> ''/proj''
       = Inr (Some ''/etc/build.json'')
   \<and> resolveConfigFile quiet_env [''build.json''] \<lparr> args_config = None, args_mode = None \<rparr>
       ''/proj'' = Inr None
   \<and> resolveConfigFile searching_env [''build.config.ts'', ''build.json'']
       \<lparr> args_config = None, args_mode = None \<rparr> ''/proj'' = Inr (Some ''/proj/build.config.ts'')"
proof -
  have p: "path_resolve (cwd quiet_env) [''/proj'', ''cfg.ts''] = ''/proj/cfg.ts''"
    by (simp add: path_resolve_def path_isAbsolute_def quiet_env_def)
  have s: "joinPath [''cfg.ts''] = ''cfg.ts''" "joinPath [''proj''] = ''proj''"
    "list_all plainSegment [''cfg.ts'']" "list_all plainSegment [''proj'']"
    by (simp_all add: plainSegment_def)
  have r1: "resolveConfigFile quiet_env [''build.json'']
      \<lparr> args_config = Some ''cfg.ts'', args_mode = None \<rparr> ''/proj'' = Inr (Some ''/proj/cfg.ts'')"
    using resolveConfigFile_cases [of "\<lparr> args_config = Some ''cfg.ts'', args_mode = None \<rparr>"
        "''cfg.ts''" quiet_env "[''build.json'']" "''/proj''" "[''cfg.ts'']" "[''proj'']"] s
    by simp
  have r2: "resolveConfigFile quiet_env [''build.json'']
       \<lparr> args_config = Some ''/etc/build.json'', args_mode = None \<rparr> ''/proj''
       = Inr (Some ''/etc/build.json'')"
    using resolveConfigFile_cases [of
        "\<lparr> args_config = Some ''/etc/build.json'', args_mode = None \<rparr>"
        "''/etc/build.json''" quiet_env "[''build.json'']" "''/proj''"]
    by (simp add: path_isAbsolute_def)
  have r3: "resolveConfigFile quiet_env [''build.json'']
      \<lparr> args_config = None, args_mode = None \<rparr> ''/proj'' = Inr None"
    using resolveConfigFile_cases [of "\<lparr> args_config = None, args_mode = None \<rparr>"
        _ quiet_env "[''build.json'']" "''/proj''" _ _ "[]"]
    by (simp add: quiet_env_def)
  have r4: "resolveConfigFile searching_env [''build.config.ts'', ''build.json'']
       \<lparr> args_config = None, args_mode = None \<rparr> ''/proj'' = Inr (Some ''/proj/build.config.ts'')"
    using resolveConfigFile_cases [of "\<lparr> args_config = None, args_mode = None \<rparr>"
        _ searching_env "[''build.config.ts'', ''build.json'']" "''/proj''" _ _
        "[''/proj/build.config.ts'', ''/proj/build.json'']"]
    by (simp add: searching_env_def quiet_env_def)
  from r1 r2 r3 r4 p show ?thesis by simp
qed

end
